theory Spec2Isabelle
  imports Main "HOL-Library.Word"
begin

section \<open>JavaScript strings and values\<close>

text \<open>
  A JavaScript string is a sequence of 16-bit code units. String literals of the source
  are written with \<open>ascii\<close>. Values are immutable trees; an object is the list of its own
  enumerable properties in property order, a function value is known by a name only.
  Numbers are restricted to integers (floating point is outside the embedding).
\<close>

type_synonym cu = "16 word"
type_synonym ustring = "cu list"

definition ascii :: "string \<Rightarrow> ustring" where
  "ascii s = map (\<lambda>c. of_nat (of_char c)) s"

datatype jsval =
    JUndefined
  | JNull
  | JBool bool
  | JNum int
  | JStr ustring
  | JFunc string
  | JArr "jsval list"
  | JObj "(ustring \<times> jsval) list"

text \<open>The exceptions the pipeline can see. \<open>RedirectException\<close> (redirect.exception.ts) is a
  plain class, not a subclass of \<open>Error\<close>; \<open>NistError\<close> (nist.error.ts) extends \<open>Error\<close>;
  \<open>JsError\<close> stands for every other \<open>Error\<close> instance, with its message.\<close>

datatype exn =
    NistError ustring
  | RedirectException ustring nat
  | JsError ustring

fun instanceof_Error :: "exn \<Rightarrow> bool" where
  "instanceof_Error (NistError m) = True"
| "instanceof_Error (JsError m) = True"
| "instanceof_Error (RedirectException url code) = False"

fun message :: "exn \<Rightarrow> ustring" where
  "message (NistError m) = m"
| "message (JsError m) = m"
| "message (RedirectException url code) = ascii ''Redirecting to '' @ url"

text \<open>Truthiness (\<open>!x\<close>, \<open>x || y\<close>) and property access.\<close>

fun truthy :: "jsval \<Rightarrow> bool" where
  "truthy JUndefined = False"
| "truthy JNull = False"
| "truthy (JBool b) = b"
| "truthy (JNum n) = (n \<noteq> 0)"
| "truthy (JStr s) = (s \<noteq> [])"
| "truthy (JFunc f) = True"
| "truthy (JArr xs) = True"
| "truthy (JObj fs) = True"

definition or_else :: "jsval \<Rightarrow> jsval \<Rightarrow> jsval" where
  "or_else a b = (if truthy a then a else b)"

fun typeof_object :: "jsval \<Rightarrow> bool" where
  "typeof_object JNull = True"
| "typeof_object (JArr xs) = True"
| "typeof_object (JObj fs) = True"
| "typeof_object v = False"

fun lookup :: "(ustring \<times> jsval) list \<Rightarrow> ustring \<Rightarrow> jsval option" where
  "lookup [] k = None"
| "lookup ((k', v) # fs) k = (if k' = k then Some v else lookup fs k)"

fun get_prop :: "jsval \<Rightarrow> ustring \<Rightarrow> jsval" where
  "get_prop (JObj fs) k = (case lookup fs k of Some v \<Rightarrow> v | None \<Rightarrow> JUndefined)"
| "get_prop v k = JUndefined"

text \<open>\<open>obj[k] = v\<close>: an existing property keeps its place, a new one is added last.\<close>

fun set_prop :: "(ustring \<times> jsval) list \<Rightarrow> ustring \<Rightarrow> jsval \<Rightarrow> (ustring \<times> jsval) list" where
  "set_prop [] k v = [(k, v)]"
| "set_prop ((k', v') # fs) k v = (if k' = k then (k, v) # fs else (k', v') # set_prop fs k v)"

fun delete_prop :: "(ustring \<times> jsval) list \<Rightarrow> ustring \<Rightarrow> (ustring \<times> jsval) list" where
  "delete_prop [] k = []"
| "delete_prop ((k', v') # fs) k = (if k' = k then delete_prop fs k else (k', v') # delete_prop fs k)"

subsection \<open>String helpers of the standard library\<close>

definition startsWith :: "ustring \<Rightarrow> ustring \<Rightarrow> bool" where
  "startsWith s p = (take (length p) s = p)"

definition endsWith :: "ustring \<Rightarrow> ustring \<Rightarrow> bool" where
  "endsWith s p = (length p \<le> length s \<and> drop (length s - length p) s = p)"

fun str_includes :: "ustring \<Rightarrow> ustring \<Rightarrow> bool" where
  "str_includes [] p = (p = [])"
| "str_includes (c # cs) p = (startsWith (c # cs) p \<or> str_includes cs p)"

text \<open>\<open>s.replace(p, r)\<close> with a string pattern: the first occurrence only.\<close>

fun replace :: "ustring \<Rightarrow> ustring \<Rightarrow> ustring \<Rightarrow> ustring" where
  "replace [] p r = (if p = [] then r else [])"
| "replace (c # cs) p r =
     (if startsWith (c # cs) p then r @ drop (length p) (c # cs) else c # replace cs p r)"

section \<open>Page-name validation\<close>

text \<open>\<open>SAFE_PAGE_NAME_PATTERN = /^[a-zA-Z0-9_-]+$/\<close>: one or more characters of the class,
  and nothing else (without the \<open>m\<close> flag \<open>$\<close> is the end of the input).\<close>

definition safe_char :: "cu \<Rightarrow> bool" where
  "safe_char c = ((0x61 \<le> c \<and> c \<le> 0x7A) \<or> (0x41 \<le> c \<and> c \<le> 0x5A) \<or>
                  (0x30 \<le> c \<and> c \<le> 0x39) \<or> c = 0x5F \<or> c = 0x2D)"

definition SAFE_PAGE_NAME_PATTERN_test :: "ustring \<Rightarrow> bool" where
  "SAFE_PAGE_NAME_PATTERN_test s = (s \<noteq> [] \<and> list_all safe_char s)"

definition validatePageName :: "ustring \<Rightarrow> bool" where
  "validatePageName pageName =
     (if str_includes pageName (ascii ''..'') \<or> str_includes pageName (ascii ''/'') \<or>
         str_includes pageName [0x5C]
      then False
      else SAFE_PAGE_NAME_PATTERN_test pageName)"


section \<open>Hydration codec, server side\<close>

subsection \<open>\<open>JSON.stringify\<close>\<close>

text \<open>The built-in serializer, for the values of this embedding: \<open>undefined\<close> and functions
  have no JSON text (\<open>None\<close>); inside an array they are written \<open>null\<close>, inside an object the
  property is left out. Strings are quoted as \<open>QuoteJSONString\<close> does: the short escapes,
  \<open>\uXXXX\<close> in lower-case hexadecimal for the other control characters and for a surrogate
  that is not part of a pair, every other code unit as it is.\<close>

function digits_of :: "nat \<Rightarrow> ustring" where
  "digits_of n = (if n < 10 then [0x30 + of_nat n]
                  else digits_of (n div 10) @ [0x30 + of_nat (n mod 10)])"
  by pat_completeness auto
termination
  by (relation "measure (\<lambda>n. n)") auto

definition number_to_string :: "int \<Rightarrow> ustring" where
  "number_to_string n = (if n < 0 then 0x2D # digits_of (nat (- n)) else digits_of (nat n))"

definition hexdigit :: "nat \<Rightarrow> cu" where
  "hexdigit d = (if d < 10 then 0x30 + of_nat d else 0x57 + of_nat d)"

definition unicode_escape :: "cu \<Rightarrow> ustring" where
  "unicode_escape c =
     [0x5C, 0x75, hexdigit (unat c div 4096 mod 16), hexdigit (unat c div 256 mod 16),
      hexdigit (unat c div 16 mod 16), hexdigit (unat c mod 16)]"

definition is_high_surrogate :: "cu \<Rightarrow> bool" where
  "is_high_surrogate c = (0xD800 \<le> c \<and> c \<le> 0xDBFF)"

definition is_low_surrogate :: "cu \<Rightarrow> bool" where
  "is_low_surrogate c = (0xDC00 \<le> c \<and> c \<le> 0xDFFF)"

definition quote_unit :: "cu \<Rightarrow> ustring" where
  "quote_unit c =
     (if c = 0x08 then [0x5C, 0x62]
      else if c = 0x09 then [0x5C, 0x74]
      else if c = 0x0A then [0x5C, 0x6E]
      else if c = 0x0C then [0x5C, 0x66]
      else if c = 0x0D then [0x5C, 0x72]
      else if c = 0x22 then [0x5C, 0x22]
      else if c = 0x5C then [0x5C, 0x5C]
      else if c < 0x20 \<or> is_high_surrogate c \<or> is_low_surrogate c then unicode_escape c
      else [c])"

fun quote_units :: "ustring \<Rightarrow> ustring" where
  "quote_units [] = []"
| "quote_units [c] = quote_unit c"
| "quote_units (c # d # cs) =
     (if is_high_surrogate c \<and> is_low_surrogate d then c # d # quote_units cs
      else quote_unit c @ quote_units (d # cs))"

definition QuoteJSONString :: "ustring \<Rightarrow> ustring" where
  "QuoteJSONString s = 0x22 # quote_units s @ [0x22]"

fun join_with :: "cu \<Rightarrow> ustring list \<Rightarrow> ustring" where
  "join_with sep [] = []"
| "join_with sep [x] = x"
| "join_with sep (x # y # xs) = x @ sep # join_with sep (y # xs)"

fun stringify_value :: "jsval \<Rightarrow> ustring option"
  and stringify_elements :: "jsval list \<Rightarrow> ustring list"
  and stringify_members :: "(ustring \<times> jsval) list \<Rightarrow> ustring list" where
  "stringify_value JUndefined = None"
| "stringify_value (JFunc f) = None"
| "stringify_value JNull = Some (ascii ''null'')"
| "stringify_value (JBool b) = Some (if b then ascii ''true'' else ascii ''false'')"
| "stringify_value (JNum n) = Some (number_to_string n)"
| "stringify_value (JStr s) = Some (QuoteJSONString s)"
| "stringify_value (JArr xs) = Some (0x5B # join_with 0x2C (stringify_elements xs) @ [0x5D])"
| "stringify_value (JObj fs) = Some (0x7B # join_with 0x2C (stringify_members fs) @ [0x7D])"
| "stringify_elements [] = []"
| "stringify_elements (x # xs) =
     (case stringify_value x of None \<Rightarrow> ascii ''null'' | Some t \<Rightarrow> t) # stringify_elements xs"
| "stringify_members [] = []"
| "stringify_members ((k, v) # fs) =
     (case stringify_value v of
        None \<Rightarrow> stringify_members fs
      | Some t \<Rightarrow> (QuoteJSONString k @ 0x3A # t) # stringify_members fs)"

definition JSON_stringify :: "jsval \<Rightarrow> ustring option" where
  "JSON_stringify v = stringify_value v"

subsection \<open>\<open>serializeJavaScript\<close>\<close>

text \<open>The callback of \<open>jsonString.replace(/[<>\/\u2028\u2029]/g, ...)\<close>, applied to every code
  unit. \<open>JSON.stringify\<close> of \<open>undefined\<close> is \<open>undefined\<close>, and \<open>.replace\<close> on it throws.\<close>

definition script_escape :: "cu \<Rightarrow> ustring" where
  "script_escape c =
     (if c = 0x3C then 0x5C # ascii ''u003c''
      else if c = 0x3E then 0x5C # ascii ''u003e''
      else if c = 0x2F then 0x5C # ascii ''u002f''
      else if c = 0x2028 then 0x5C # ascii ''u2028''
      else if c = 0x2029 then 0x5C # ascii ''u2029''
      else [c])"

definition serializeJavaScript :: "jsval \<Rightarrow> exn + ustring" where
  "serializeJavaScript data =
     (case JSON_stringify data of
        None \<Rightarrow> Inl (JsError (ascii ''Cannot read properties of undefined''))
      | Some jsonString \<Rightarrow> Inr (concat (map script_escape jsonString)))"


section \<open>External collaborators and process state\<close>

text \<open>
  What the interceptor consumes but does not define is a parameter: the file system
  (\<open>existsSync\<close>, \<open>readdirSync\<close>), the module loader of the dev server (\<open>ssrLoadModule\<close>, which
  may throw, and the time a load takes), \<open>path.join\<close>, the \<open>URL\<close> parser, the random source of
  the CSRF token, the rendering engine, the document post-processor and the string
  conversion of template literals. \<open>production\<close> is \<open>process.env.NODE_ENV === "production"\<close>.
\<close>

record js_module =
  m_default :: jsval
  m_metadata :: jsval
  m_getMetadata :: "(exn + jsval) option"
  m_config :: jsval

record cached_module =
  component :: jsval
  metadata :: jsval
  config :: jsval
  timestamp :: int

record cached_layout =
  layout_component :: jsval
  layout_metadata :: jsval
  layout_timestamp :: int

text \<open>What is handed to \<open>renderToString\<close>: the page element, alone or inside the nested
  layout, with its props; on the layout path the root layout with the props it receives
  (the meta-tag and hydration-script elements are determined by the merged metadata, the
  token and the serialized payload). The document is kept as its interpolated parts
  (charset, viewport, escaped title, meta tags, page markup, serialized payload), a meta
  tag as its kind, its name and its escaped content; the literal template text is not
  expanded.\<close>

datatype wrapped = Bare jsval | Wrapped jsval jsval

datatype render_job =
    RenderPage wrapped jsval
  | RenderApp jsval wrapped jsval jsval ustring ustring

datatype meta_tag =
    MetaName ustring ustring
  | MetaProperty ustring ustring
  | LinkRel ustring ustring

datatype document =
    LayoutDocument ustring
  | FallbackDocument ustring ustring ustring "meta_tag list" ustring ustring

record env =
  production :: bool
  existsSync :: "ustring \<Rightarrow> bool"
  readdirSync :: "ustring \<Rightarrow> ustring list option"
  ssrLoadModule :: "ustring \<Rightarrow> exn + js_module"
  load_millis :: "ustring \<Rightarrow> nat"
  path_join :: "ustring list \<Rightarrow> ustring"
  url_searchParams :: "ustring \<Rightarrow> ustring \<Rightarrow> exn + jsval"
  randomBytes_hex :: ustring
  renderToString :: "render_job \<Rightarrow> exn + ustring"
  transformIndexHtml :: "ustring \<Rightarrow> document \<Rightarrow> exn + ustring"
  toString :: "jsval \<Rightarrow> ustring"

text \<open>
  The state the interceptor reads and writes: the clock, the response object, the four
  process-wide caches, and a trace of the calls made to the outside. Entries of
  \<open>MODULE_CACHE\<close> are objects with an identity: the cache holds references into the store
  \<open>modules\<close>, where a new object is added at the end and none is ever overwritten.
  In the trace, \<open>Issued t\<close> marks the call that starts an asynchronous load and
  \<open>Awaited ts\<close> the point where the request resumes after awaiting those loads.
\<close>

datatype task = LoadPage | LoadNotFound | LoadLayout | LoadRootLayout

datatype event =
    FsExists ustring
  | FsReaddir ustring
  | ViteLoad ustring
  | ImportDefaultNotFound
  | Issued task
  | Awaited "task list"
  | Render
  | Transform

record world =
  now :: int
  statusCode :: nat
  headers :: "(ustring \<times> ustring) list"
  sent :: "ustring option"
  modules :: "cached_module list"
  MODULE_CACHE :: "ustring \<rightharpoonup> nat"
  LAYOUT_CACHE :: "ustring \<rightharpoonup> cached_layout"
  LAYOUT_DISCOVERY_CACHE :: "ustring \<rightharpoonup> ustring option"
  ROOT_LAYOUT_CACHE :: "ustring \<rightharpoonup> cached_layout"
  trace :: "event list"

subsection \<open>Computations that may throw\<close>

type_synonym 'a io = "world \<Rightarrow> (exn + 'a) \<times> world"

definition ret :: "'a \<Rightarrow> 'a io" where
  "ret x = (\<lambda>w. (Inr x, w))"

definition throw :: "exn \<Rightarrow> 'a io" where
  "throw e = (\<lambda>w. (Inl e, w))"

definition bnd :: "'a io \<Rightarrow> ('a \<Rightarrow> 'b io) \<Rightarrow> 'b io" where
  "bnd m f = (\<lambda>w. case m w of (Inl e, w') \<Rightarrow> (Inl e, w') | (Inr x, w') \<Rightarrow> f x w')"

definition try_catch :: "'a io \<Rightarrow> (exn \<Rightarrow> 'a io) \<Rightarrow> 'a io" where
  "try_catch m h = (\<lambda>w. case m w of (Inl e, w') \<Rightarrow> h e w' | (Inr x, w') \<Rightarrow> (Inr x, w'))"

text \<open>A promise left to settle: its rejection is a value until it is awaited.\<close>

definition settle :: "'a io \<Rightarrow> (exn + 'a) io" where
  "settle m = (\<lambda>w. case m w of (r, w') \<Rightarrow> (Inr r, w'))"

definition await :: "(exn + 'a) \<Rightarrow> 'a io" where
  "await r = (case r of Inl e \<Rightarrow> throw e | Inr x \<Rightarrow> ret x)"

definition emit :: "event \<Rightarrow> unit io" where
  "emit ev = (\<lambda>w. (Inr (), w\<lparr>trace := trace w @ [ev]\<rparr>))"

definition fs_exists :: "env \<Rightarrow> ustring \<Rightarrow> bool io" where
  "fs_exists e p = bnd (emit (FsExists p)) (\<lambda>_. ret (existsSync e p))"

definition fs_readdir :: "env \<Rightarrow> ustring \<Rightarrow> ustring list io" where
  "fs_readdir e p =
     bnd (emit (FsReaddir p))
       (\<lambda>_. case readdirSync e p of
               None \<Rightarrow> throw (JsError (ascii ''ENOENT''))
             | Some files \<Rightarrow> ret files)"

definition vite_load :: "env \<Rightarrow> ustring \<Rightarrow> js_module io" where
  "vite_load e p =
     (\<lambda>w. (ssrLoadModule e p,
            w\<lparr>now := now w + int (load_millis e p), trace := trace w @ [ViteLoad p]\<rparr>))"

subsection \<open>The module cache\<close>

text \<open>\<open>CACHE_TTL = production ? Infinity : 10000\<close>; every timestamp difference is below
  \<open>Infinity\<close>.\<close>

definition CACHE_TTL :: "env \<Rightarrow> int option" where
  "CACHE_TTL e = (if production e then None else Some 10000)"

definition within_ttl :: "env \<Rightarrow> int \<Rightarrow> int \<Rightarrow> bool" where
  "within_ttl e t stamp = (case CACHE_TTL e of None \<Rightarrow> True | Some ttl \<Rightarrow> t - stamp < ttl)"

text \<open>The metadata of a loaded module, as each loader resolves it: the companion file if
  it exists (a failure to load it is logged and leaves \<open>{}\<close>), else an exported
  \<open>getMetadata\<close> function, else an exported \<open>metadata\<close> value, else \<open>{}\<close>.\<close>

definition resolve_metadata :: "env \<Rightarrow> ustring \<Rightarrow> js_module \<Rightarrow> jsval io" where
  "resolve_metadata e metadataPath m =
     bnd (fs_exists e metadataPath) (\<lambda>ex.
       if ex then
         try_catch
           (bnd (vite_load e metadataPath) (\<lambda>metadataModule.
              ret (or_else (m_metadata metadataModule)
                     (or_else (m_default metadataModule) (JObj [])))))
           (\<lambda>metaError. ret (JObj []))
       else (case m_getMetadata m of
               Some r \<Rightarrow> await r
             | None \<Rightarrow> ret (if truthy (m_metadata m) then m_metadata m else JObj [])))"

definition MODULE_CACHE_set :: "ustring \<Rightarrow> cached_module \<Rightarrow> nat io" where
  "MODULE_CACHE_set key cachedModule =
     (\<lambda>w. (Inr (length (modules w)),
            w\<lparr>modules := modules w @ [cachedModule],
              MODULE_CACHE := (MODULE_CACHE w)(key \<mapsto> length (modules w))\<rparr>))"

definition MODULE_CACHE_hit :: "env \<Rightarrow> world \<Rightarrow> ustring \<Rightarrow> nat option" where
  "MODULE_CACHE_hit e w key =
     (case MODULE_CACHE w key of
        None \<Rightarrow> None
      | Some r \<Rightarrow> if within_ttl e (now w) (timestamp (modules w ! r)) then Some r else None)"

definition loadPageModule :: "env \<Rightarrow> ustring \<Rightarrow> nat io" where
  "loadPageModule e pagePath =
     (\<lambda>w. case MODULE_CACHE_hit e w pagePath of
             Some cached \<Rightarrow> (Inr cached, w)
           | None \<Rightarrow>
               bnd (vite_load e pagePath) (\<lambda>pageModule.
               bnd (resolve_metadata e
                      (replace pagePath (ascii ''.page.tsx'') (ascii ''.metadata.ts'')) pageModule)
                 (\<lambda>md.
               (\<lambda>w'. MODULE_CACHE_set pagePath
                        \<lparr>component = m_default pageModule, metadata = md,
                         config = or_else (m_config pageModule) (JObj []),
                         timestamp = now w'\<rparr> w'))) w)"


text \<open>Object spread \<open>{...target, ...source}\<close>: the own enumerable properties of the source
  are assigned in order. \<open>undefined\<close>, \<open>null\<close>, numbers, booleans and functions contribute
  nothing; an array or a string contributes its indices. A new property is added last:
  that a name which is an array index would be listed before the other names is not
  modelled here (the metadata and props records are read by name).\<close>

fun own_enumerable :: "jsval \<Rightarrow> (ustring \<times> jsval) list" where
  "own_enumerable (JObj fs) = fs"
| "own_enumerable (JArr xs) = zip (map digits_of [0..<length xs]) xs"
| "own_enumerable (JStr s) = zip (map digits_of [0..<length s]) (map (\<lambda>c. JStr [c]) s)"
| "own_enumerable v = []"

definition spread :: "(ustring \<times> jsval) list \<Rightarrow> jsval \<Rightarrow> (ustring \<times> jsval) list" where
  "spread target source = fold (\<lambda>(k, v) acc. set_prop acc k v) (own_enumerable source) target"

definition default_not_found_metadata :: "(ustring \<times> jsval) list" where
  "default_not_found_metadata =
     [(ascii ''title'', JStr (ascii ''404 - Page Not Found'')),
      (ascii ''description'', JStr (ascii ''The page you are looking for does not exist.'')),
      (ascii ''robots'', JStr (ascii ''noindex, nofollow''))]"

text \<open>The default export of \<open>default-not-found.tsx\<close>.\<close>

definition DefaultNotFound :: jsval where
  "DefaultNotFound = JFunc ''DefaultNotFound''"

definition loadNotFoundPage :: "env \<Rightarrow> ustring \<Rightarrow> nat io" where
  "loadNotFoundPage e sourcePath =
     (\<lambda>w. case MODULE_CACHE_hit e w (sourcePath @ ascii '':not-found'') of
             Some cached \<Rightarrow> (Inr cached, w)
           | None \<Rightarrow>
               bnd (try_catch
                      (bnd (vite_load e (path_join e [sourcePath, ascii ''not-found.page.tsx'']))
                         (\<lambda>customModule.
                       bnd (fs_exists e (path_join e [sourcePath, ascii ''not-found.metadata.ts'']))
                         (\<lambda>ex.
                       if ex then
                         try_catch
                           (bnd (vite_load e
                                   (path_join e [sourcePath, ascii ''not-found.metadata.ts'']))
                              (\<lambda>metadataModule.
                                 ret (m_default customModule,
                                      JObj (spread default_not_found_metadata
                                              (or_else (m_metadata metadataModule)
                                                 (or_else (m_default metadataModule) (JObj [])))))))
                           (\<lambda>error. ret (m_default customModule, JObj default_not_found_metadata))
                       else ret (m_default customModule, JObj default_not_found_metadata))))
                      (\<lambda>error. bnd (emit ImportDefaultNotFound)
                                  (\<lambda>_. ret (DefaultNotFound, JObj default_not_found_metadata))))
                 (\<lambda>(comp, md).
               (\<lambda>w'. MODULE_CACHE_set (sourcePath @ ascii '':not-found'')
                        \<lparr>component = comp, metadata = md, config = JObj [],
                         timestamp = now w'\<rparr> w')) w)"

definition cached_layout_hit :: "env \<Rightarrow> world \<Rightarrow> cached_layout option \<Rightarrow> cached_layout option" where
  "cached_layout_hit e w c =
     (case c of
        None \<Rightarrow> None
      | Some cached \<Rightarrow> if within_ttl e (now w) (layout_timestamp cached) then Some cached else None)"

definition loadRootLayout :: "env \<Rightarrow> ustring \<Rightarrow> cached_layout option io" where
  "loadRootLayout e sourcePath =
     (\<lambda>w. case cached_layout_hit e w (ROOT_LAYOUT_CACHE w sourcePath) of
             Some cached \<Rightarrow> (Inr (Some cached), w)
           | None \<Rightarrow>
               bnd (fs_exists e (path_join e [sourcePath, ascii ''app.layout.tsx''])) (\<lambda>ex.
               if \<not> ex then ret None
               else
                 try_catch
                   (bnd (vite_load e (path_join e [sourcePath, ascii ''app.layout.tsx'']))
                      (\<lambda>layoutModule.
                    bnd (resolve_metadata e (path_join e [sourcePath, ascii ''app.metadata.ts''])
                           layoutModule)
                      (\<lambda>md.
                    (\<lambda>w'. (Inr (Some \<lparr>layout_component = m_default layoutModule,
                                      layout_metadata = md, layout_timestamp = now w'\<rparr>),
                            w'\<lparr>ROOT_LAYOUT_CACHE := (ROOT_LAYOUT_CACHE w')(sourcePath \<mapsto>
                                 \<lparr>layout_component = m_default layoutModule,
                                  layout_metadata = md, layout_timestamp = now w'\<rparr>)\<rparr>)))))
                   (\<lambda>error. ret None)) w)"

text \<open>Discovery of the nested layout of a directory: the first file that ends with
  \<open>.layout.tsx\<close> and is not the root layout; the answer, also "none", is cached.\<close>

definition discover_layout :: "env \<Rightarrow> ustring \<Rightarrow> ustring option io" where
  "discover_layout e sourcePath =
     (\<lambda>w. case LAYOUT_DISCOVERY_CACHE w sourcePath of
             Some discoveredPath \<Rightarrow> (Inr discoveredPath, w)
           | None \<Rightarrow>
               try_catch
                 (bnd (fs_readdir e sourcePath) (\<lambda>files.
                    (\<lambda>w'. let layoutPath =
                                (case find (\<lambda>f. endsWith f (ascii ''.layout.tsx'') \<and>
                                                 f \<noteq> ascii ''app.layout.tsx'') files of
                                   None \<Rightarrow> None
                                 | Some layoutFile \<Rightarrow> Some (path_join e [sourcePath, layoutFile]))
                           in (Inr layoutPath,
                               w'\<lparr>LAYOUT_DISCOVERY_CACHE :=
                                    (LAYOUT_DISCOVERY_CACHE w')(sourcePath \<mapsto> layoutPath)\<rparr>))))
                 (\<lambda>error. (\<lambda>w'. (Inr None,
                                   w'\<lparr>LAYOUT_DISCOVERY_CACHE :=
                                        (LAYOUT_DISCOVERY_CACHE w')(sourcePath \<mapsto> None)\<rparr>))) w)"

definition present :: "ustring option \<Rightarrow> bool" where
  "present s = (case s of None \<Rightarrow> False | Some x \<Rightarrow> x \<noteq> [])"

definition loadLayout :: "env \<Rightarrow> ustring \<Rightarrow> ustring option \<Rightarrow> cached_layout option io" where
  "loadLayout e sourcePath customLayout =
     (\<lambda>w. let cacheKey = sourcePath @ 0x3A #
                          (if present customLayout then the customLayout else ascii ''auto'')
           in case cached_layout_hit e w (LAYOUT_CACHE w cacheKey) of
             Some cached \<Rightarrow> (Inr (Some cached), w)
           | None \<Rightarrow>
               bnd (if present customLayout
                    then ret (Some (path_join e [sourcePath,
                                                 the customLayout @ ascii ''.layout.tsx'']))
                    else discover_layout e sourcePath) (\<lambda>layoutPath.
               case layoutPath of
                 None \<Rightarrow> ret None
               | Some lp \<Rightarrow>
                   if lp = [] then ret None
                   else
                     bnd (fs_exists e lp) (\<lambda>ex.
                     if \<not> ex then ret None
                     else
                       bnd (vite_load e lp) (\<lambda>layoutModule.
                       bnd (resolve_metadata e
                              (replace lp (ascii ''.layout.tsx'') (ascii ''.metadata.ts''))
                              layoutModule) (\<lambda>md.
                       (\<lambda>w'. (Inr (Some \<lparr>layout_component = m_default layoutModule,
                                         layout_metadata = md, layout_timestamp = now w'\<rparr>),
                               w'\<lparr>LAYOUT_CACHE := (LAYOUT_CACHE w')(cacheKey \<mapsto>
                                    \<lparr>layout_component = m_default layoutModule,
                                     layout_metadata = md,
                                     layout_timestamp = now w'\<rparr>)\<rparr>)))))) w)"


section \<open>The interceptor\<close>

subsection \<open>Helpers of the class\<close>

definition HTML_ESCAPE_MAP :: "cu \<Rightarrow> ustring" where
  "HTML_ESCAPE_MAP c =
     (if c = 0x26 then ascii ''&amp;''
      else if c = 0x3C then ascii ''&lt;''
      else if c = 0x3E then ascii ''&gt;''
      else if c = 0x22 then ascii ''&quot;''
      else if c = 0x27 then ascii ''&#x27;''
      else if c = 0x2F then ascii ''&#x2F;''
      else [c])"

definition escapeHtml :: "ustring \<Rightarrow> ustring" where
  "escapeHtml text = concat (map HTML_ESCAPE_MAP text)"

text \<open>\<open>sanitizeInitialProps\<close> on immutable values: the copy of an object is walked property
  by property, a property named \<open>password\<close> or \<open>passwordHash\<close> is deleted, a property
  holding an object is replaced by its sanitized value one level deeper.\<close>

fun sanitizeInitialProps :: "jsval \<Rightarrow> nat \<Rightarrow> jsval"
  and sanitize_entries :: "(ustring \<times> jsval) list \<Rightarrow> nat \<Rightarrow> (ustring \<times> jsval) list"
  and sanitize_items :: "jsval list \<Rightarrow> nat \<Rightarrow> jsval list" where
  "sanitizeInitialProps (JObj fs) depth =
     (if depth > 10 then JObj fs else JObj (sanitize_entries fs depth))"
| "sanitizeInitialProps (JArr xs) depth =
     (if depth > 10 then JArr xs else JArr (sanitize_items xs depth))"
| "sanitizeInitialProps JUndefined depth = JUndefined"
| "sanitizeInitialProps JNull depth = JNull"
| "sanitizeInitialProps (JBool b) depth = JBool b"
| "sanitizeInitialProps (JNum n) depth = JNum n"
| "sanitizeInitialProps (JStr s) depth = JStr s"
| "sanitizeInitialProps (JFunc f) depth = JFunc f"
| "sanitize_entries [] depth = []"
| "sanitize_entries ((key, value) # fs) depth =
     (if key = ascii ''password'' \<or> key = ascii ''passwordHash''
      then sanitize_entries fs depth
      else (key, if truthy value \<and> typeof_object value
                 then sanitizeInitialProps value (depth + 1) else value)
           # sanitize_entries fs depth)"
| "sanitize_items [] depth = []"
| "sanitize_items (value # xs) depth =
     (if truthy value \<and> typeof_object value
      then sanitizeInitialProps value (depth + 1) else value) # sanitize_items xs depth"

definition SECURITY_HEADERS :: "(ustring \<times> ustring) list" where
  "SECURITY_HEADERS =
     [(ascii ''Content-Security-Policy'',
       ascii (''default-src 'self'; script-src 'self' 'unsafe-inline' 'unsafe-eval'; '' @
              ''style-src 'self' 'unsafe-inline'; img-src 'self' data: https:; '' @
              ''font-src 'self' data:; connect-src 'self' ws: wss:; '' @
              ''worker-src 'self' blob:; frame-ancestors 'none'' @ [CHR 0x27])),
      (ascii ''X-Frame-Options'', ascii ''DENY''),
      (ascii ''X-Content-Type-Options'', ascii ''nosniff''),
      (ascii ''X-XSS-Protection'', ascii ''1; mode=block''),
      (ascii ''Referrer-Policy'', ascii ''strict-origin-when-cross-origin''),
      (ascii ''Permissions-Policy'', ascii ''geolocation=(), microphone=(), camera=()'')]"

fun set_header :: "(ustring \<times> ustring) list \<Rightarrow> ustring \<Rightarrow> ustring \<Rightarrow> (ustring \<times> ustring) list" where
  "set_header [] k v = [(k, v)]"
| "set_header ((k', v') # hs) k v =
     (if k' = k then (k, v) # hs else (k', v') # set_header hs k v)"

definition res_setHeader :: "ustring \<Rightarrow> ustring \<Rightarrow> unit io" where
  "res_setHeader k v = (\<lambda>w. (Inr (), w\<lparr>headers := set_header (headers w) k v\<rparr>))"

definition res_status :: "nat \<Rightarrow> unit io" where
  "res_status code = (\<lambda>w. (Inr (), w\<lparr>statusCode := code\<rparr>))"

definition res_end :: "ustring \<Rightarrow> unit io" where
  "res_end body = (\<lambda>w. (Inr (), w\<lparr>sent := Some body\<rparr>))"

fun setSecurityHeaders :: "(ustring \<times> ustring) list \<Rightarrow> unit io" where
  "setSecurityHeaders [] = ret ()"
| "setSecurityHeaders ((key, value) # hs) =
     bnd (res_setHeader key value) (\<lambda>_. setSecurityHeaders hs)"

text \<open>\<open>buildMetaTags\<close>: one tag for every truthy field; \<open>escapeHtml\<close> calls \<open>.replace\<close> on
  the field, which throws on a value that is not a string.\<close>

definition meta_field :: "(ustring \<Rightarrow> meta_tag) \<Rightarrow> jsval \<Rightarrow> exn + meta_tag list" where
  "meta_field mk v =
     (if \<not> truthy v then Inr []
      else (case v of
              JStr text \<Rightarrow> Inr [mk (escapeHtml text)]
            | _ \<Rightarrow> Inl (JsError (ascii ''text.replace is not a function''))))"

fun meta_fields :: "((ustring \<Rightarrow> meta_tag) \<times> jsval) list \<Rightarrow> exn + meta_tag list" where
  "meta_fields [] = Inr []"
| "meta_fields ((mk, v) # rest) =
     (case meta_field mk v of
        Inl err \<Rightarrow> Inl err
      | Inr tags \<Rightarrow> (case meta_fields rest of
                       Inl err \<Rightarrow> Inl err
                     | Inr others \<Rightarrow> Inr (tags @ others)))"

definition buildMetaTags :: "jsval \<Rightarrow> ustring \<Rightarrow> exn + meta_tag list" where
  "buildMetaTags mergedMetadata csrfToken =
     (let openGraph = get_prop mergedMetadata (ascii ''openGraph'');
          twitter = get_prop mergedMetadata (ascii ''twitter'')
      in case meta_fields
           ([(MetaName (ascii ''description''), get_prop mergedMetadata (ascii ''description'')),
             (MetaName (ascii ''keywords''), get_prop mergedMetadata (ascii ''keywords'')),
             (MetaName (ascii ''author''), get_prop mergedMetadata (ascii ''author'')),
             (MetaName (ascii ''robots''), get_prop mergedMetadata (ascii ''robots'')),
             (LinkRel (ascii ''canonical''), get_prop mergedMetadata (ascii ''canonical''))] @
            (if truthy openGraph then
               [(MetaProperty (ascii ''og:title''), get_prop openGraph (ascii ''title'')),
                (MetaProperty (ascii ''og:description''), get_prop openGraph (ascii ''description'')),
                (MetaProperty (ascii ''og:image''), get_prop openGraph (ascii ''image'')),
                (MetaProperty (ascii ''og:url''), get_prop openGraph (ascii ''url'')),
                (MetaProperty (ascii ''og:type''), get_prop openGraph (ascii ''type''))]
             else []) @
            (if truthy twitter then
               [(MetaName (ascii ''twitter:card''), get_prop twitter (ascii ''card'')),
                (MetaName (ascii ''twitter:site''), get_prop twitter (ascii ''site'')),
                (MetaName (ascii ''twitter:creator''), get_prop twitter (ascii ''creator'')),
                (MetaName (ascii ''twitter:title''), get_prop twitter (ascii ''title'')),
                (MetaName (ascii ''twitter:description''), get_prop twitter (ascii ''description'')),
                (MetaName (ascii ''twitter:image''), get_prop twitter (ascii ''image''))]
             else [])) of
           Inl err \<Rightarrow> Inl err
         | Inr tags \<Rightarrow> Inr (tags @ [MetaName (ascii ''csrf-token'') csrfToken]))"

subsection \<open>Route data\<close>

record request =
  req_params :: jsval
  req_query :: jsval
  req_path :: "ustring option"
  req_url :: "ustring option"
  req_host :: "ustring option"

record route_data =
  params :: jsval
  query :: jsval
  pathname :: ustring
  searchParams :: jsval

text \<open>\<open>routePool.acquire\<close>. The reuse of pooled objects is not visible on immutable values
  and is left out; \<open>new URL(...)\<close> may throw.\<close>

definition extractRouteParams :: "env \<Rightarrow> request \<Rightarrow> route_data io" where
  "extractRouteParams e rq =
     (case url_searchParams e
             (if present (req_url rq) then the (req_url rq) else ascii ''/'')
             (ascii ''http://'' @
                (if present (req_host rq) then the (req_host rq) else ascii ''localhost'')) of
        Inl err \<Rightarrow> throw err
      | Inr sp \<Rightarrow>
          ret \<lparr>params = or_else (req_params rq) (JObj []),
               query = or_else (req_query rq) (JObj []),
               pathname =
                 (if present (req_path rq) then the (req_path rq)
                  else (case req_url rq of
                          None \<Rightarrow> ascii ''/''
                        | Some u \<Rightarrow> if takeWhile (\<lambda>c. c \<noteq> 0x3F) u \<noteq> []
                                    then takeWhile (\<lambda>c. c \<noteq> 0x3F) u else ascii ''/'')),
               searchParams = sp\<rparr>)"

subsection \<open>Metadata merge\<close>

text \<open>\<open>{...(rootLayout?.metadata || {}), ...layoutMetadata, ...pageModule.metadata,
  ...controllerMetadata}\<close>\<close>

definition mergeMetadata :: "jsval \<Rightarrow> jsval \<Rightarrow> jsval \<Rightarrow> jsval \<Rightarrow> (ustring \<times> jsval) list" where
  "mergeMetadata rootMetadata layoutMetadata pageMetadata controllerMetadata =
     spread (spread (spread (spread [] rootMetadata) layoutMetadata) pageMetadata)
       controllerMetadata"


subsection \<open>\<open>intercept\<close>\<close>

text \<open>
  The execution context: what the reflector returns for the class and the handler (absent
  metadata is \<open>None\<close>), the request, and what the observable of \<open>next.handle()\<close>
  delivers, an error or one value. Timing measurements and log output are left out.
\<close>

record exec_context =
  pageRoot :: "ustring option"
  pageName :: "ustring option"
  hasPagesDir :: bool
  customLayout :: "ustring option"
  req :: request
  handler :: "exn + jsval"

text \<open>Step 4 of the callback: the page module is loaded and awaited first (a failure
  sets status 404 and loads the not-found page), then the nested layout and the root
  layout are started together and awaited with \<open>Promise.all\<close>. A load that is started
  runs here to its end before the next one is started: how the two layout loads
  interleave between their own awaits is not modelled, the order in which loads are
  started and awaited is.\<close>

definition load_modules ::
  "env \<Rightarrow> exec_context \<Rightarrow> ustring \<Rightarrow> ustring \<Rightarrow>
   (nat \<times> bool \<times> cached_layout option \<times> cached_layout option) io" where
  "load_modules e ctx sourcePath pagePath =
     bnd (emit (Issued LoadPage)) (\<lambda>_.
     bnd (settle (loadPageModule e pagePath)) (\<lambda>p.
     bnd (emit (Awaited [LoadPage])) (\<lambda>_.
     bnd (case p of
            Inr pageModule \<Rightarrow> ret (pageModule, False)
          | Inl error \<Rightarrow>
              bnd (res_status 404) (\<lambda>_.
              bnd (emit (Issued LoadNotFound)) (\<lambda>_.
              bnd (settle (loadNotFoundPage e sourcePath)) (\<lambda>q.
              bnd (emit (Awaited [LoadNotFound])) (\<lambda>_.
              bnd (await q) (\<lambda>pageModule. ret (pageModule, True))))))) (\<lambda>(pageModule, isNotFound).
     bnd (settle (if hasPagesDir ctx
                  then bnd (emit (Issued LoadLayout))
                         (\<lambda>_. loadLayout e sourcePath (customLayout ctx))
                  else ret None)) (\<lambda>l.
     bnd (emit (Issued LoadRootLayout)) (\<lambda>_.
     bnd (settle (loadRootLayout e sourcePath)) (\<lambda>r.
     bnd (emit (Awaited ((if hasPagesDir ctx then [LoadLayout] else []) @ [LoadRootLayout])))
       (\<lambda>_.
     bnd (await l) (\<lambda>cachedLayout.
     bnd (await r) (\<lambda>rootLayout.
     ret (pageModule, isNotFound, cachedLayout, rootLayout)))))))))))"

definition resolve_source_path :: "env \<Rightarrow> ustring \<Rightarrow> ustring io" where
  "resolve_source_path e root =
     bnd (fs_exists e (if str_includes root (ascii ''/dist/'')
                       then replace root (ascii ''/dist/src'') (ascii ''/src/'') else root))
       (\<lambda>ex. ret (if ex then (if str_includes root (ascii ''/dist/'')
                              then replace root (ascii ''/dist/src'') (ascii ''/src/'') else root)
                   else replace root (ascii ''/dist/'') (ascii ''/'')))"

definition enrich :: "jsval \<Rightarrow> route_data \<Rightarrow> jsval" where
  "enrich controllerData routeData =
     JObj (set_prop (set_prop (set_prop (set_prop (spread [] controllerData)
             (ascii ''params'') (params routeData))
             (ascii ''query'') (query routeData))
             (ascii ''pathname'') (JStr (pathname routeData)))
             (ascii ''searchParams'') (searchParams routeData))"

definition hydration_data :: "jsval \<Rightarrow> route_data \<Rightarrow> ustring \<Rightarrow> int \<Rightarrow> jsval" where
  "hydration_data sanitizedProps routeData name t =
     JObj [(ascii ''props'', sanitizedProps),
           (ascii ''route'', JObj [(ascii ''params'', params routeData),
                                   (ascii ''query'', query routeData),
                                   (ascii ''pathname'', JStr (pathname routeData)),
                                   (ascii ''searchParams'', searchParams routeData)]),
           (ascii ''page'', JStr name),
           (ascii ''timestamp'', JNum t)]"

definition render_call :: "env \<Rightarrow> render_job \<Rightarrow> ustring io" where
  "render_call e job = bnd (emit Render) (\<lambda>_. await (renderToString e job))"

definition transform_call :: "env \<Rightarrow> ustring \<Rightarrow> document \<Rightarrow> ustring io" where
  "transform_call e url html = bnd (emit Transform) (\<lambda>_. await (transformIndexHtml e url html))"

text \<open>Steps 5 to 8 and the rendering: the layout wrapper, the merged metadata, the token,
  the hydration payload, and the document on the layout path or the fallback path.\<close>

definition build_document ::
  "env \<Rightarrow> ustring \<Rightarrow> jsval \<Rightarrow> route_data \<Rightarrow> cached_module \<Rightarrow>
   cached_layout option \<Rightarrow> cached_layout option \<Rightarrow> document io" where
  "build_document e name result routeData pageModule cachedLayout rootLayout =
     (let controllerData =
           (if get_prop result (ascii ''data'') \<noteq> JUndefined
            then get_prop result (ascii ''data'') else result);
         controllerMetadata = or_else (get_prop result (ascii ''metadata'')) (JObj []);
         enrichedResult = enrich controllerData routeData;
         WrappedComponent =
           (case cachedLayout of
              None \<Rightarrow> Bare (component pageModule)
            | Some l \<Rightarrow> if truthy (layout_component l)
                        then Wrapped (layout_component l) (component pageModule)
                        else Bare (component pageModule));
         layoutMetadata =
           (case cachedLayout of
              None \<Rightarrow> JObj []
            | Some l \<Rightarrow> or_else (layout_metadata l) (JObj []));
         mergedMetadata =
           mergeMetadata
             (case rootLayout of
                None \<Rightarrow> JObj []
              | Some rl \<Rightarrow> or_else (layout_metadata rl) (JObj []))
             layoutMetadata (metadata pageModule) controllerMetadata;
         csrfToken = randomBytes_hex e
     in
     bnd (\<lambda>w. (Inr (now w), w)) (\<lambda>t.
     bnd (await (serializeJavaScript
                   (hydration_data (sanitizeInitialProps enrichedResult 0) routeData name t)))
       (\<lambda>hydrationJson.
     case rootLayout of
       Some rl \<Rightarrow>
         bnd (render_call e
                (RenderApp (layout_component rl) WrappedComponent enrichedResult
                   (JObj mergedMetadata) csrfToken hydrationJson))
           (\<lambda>markup. ret (LayoutDocument markup))
     | None \<Rightarrow>
         bnd (await (buildMetaTags (JObj mergedMetadata) csrfToken)) (\<lambda>metaTagsString.
         bnd (render_call e (RenderPage WrappedComponent enrichedResult)) (\<lambda>appHtml.
         (case or_else (get_prop (JObj mergedMetadata) (ascii ''title'')) (JStr name) of
            JStr title \<Rightarrow>
              ret (FallbackDocument
                     (toString e (or_else (get_prop (JObj mergedMetadata) (ascii ''charset''))
                                    (JStr (ascii ''UTF-8''))))
                     (toString e (or_else (get_prop (JObj mergedMetadata) (ascii ''viewport''))
                                    (JStr (ascii ''width=device-width, initial-scale=1.0''))))
                     (escapeHtml title) metaTagsString appHtml hydrationJson)
          | _ \<Rightarrow> throw (JsError (ascii ''text.replace is not a function''))))))))"

text \<open>Steps 9 and 10: the document is post-processed, the headers are set, and the
  response is sent with \<open>res.status(200).end(transformed)\<close>.\<close>

definition send_document :: "env \<Rightarrow> ustring \<Rightarrow> document \<Rightarrow> jsval io" where
  "send_document e url html =
     bnd (transform_call e url html) (\<lambda>transformed.
     bnd (setSecurityHeaders SECURITY_HEADERS) (\<lambda>_.
     bnd (res_setHeader (ascii ''Content-Type'') (ascii ''text/html'')) (\<lambda>_.
     bnd (res_status 200) (\<lambda>_.
     bnd (res_end transformed) (\<lambda>_.
     ret JUndefined)))))"

text \<open>The body of the \<open>try\<close> block inside \<open>switchMap\<close>, steps 1 to 10.\<close>

definition render_body :: "env \<Rightarrow> exec_context \<Rightarrow> ustring \<Rightarrow> ustring \<Rightarrow> jsval \<Rightarrow> jsval io" where
  "render_body e ctx root name result =
     bnd (extractRouteParams e (req ctx)) (\<lambda>routeData.
     bnd (resolve_source_path e root) (\<lambda>sourcePath.
     bnd (load_modules e ctx sourcePath
            (path_join e [sourcePath, if hasPagesDir ctx then ascii ''pages'' else [],
                          name @ ascii ''.page.tsx'']))
       (\<lambda>(pageRef, isNotFound, cachedLayout, rootLayout).
     bnd (\<lambda>w. (Inr (modules w ! pageRef), w)) (\<lambda>pageModule.
     if \<not> truthy (component pageModule)
     then throw (NistError
                   (if isNotFound then ascii ''No default export found in not-found.page.tsx''
                    else ascii ''No default export found in '' @ name @ ascii ''.page.tsx''))
     else
     bnd (if truthy (get_prop (config pageModule) (ascii ''revalidate''))
          then res_setHeader (ascii ''Cache-Control'')
                 (ascii ''s-maxage='' @
                  toString e (get_prop (config pageModule) (ascii ''revalidate'')) @
                  ascii '', stale-while-revalidate'')
          else ret ()) (\<lambda>_.
     bnd (build_document e name result routeData pageModule cachedLayout rootLayout) (\<lambda>html.
     send_document e (case req_url (req ctx) of None \<Rightarrow> [] | Some u \<Rightarrow> u) html))))))"

text \<open>The \<open>catch\<close> of the callback: whatever was thrown becomes a new \<open>NistError\<close>.\<close>

definition render_page :: "env \<Rightarrow> exec_context \<Rightarrow> ustring \<Rightarrow> ustring \<Rightarrow> jsval \<Rightarrow> jsval io" where
  "render_page e ctx root name result =
     try_catch (render_body e ctx root name result)
       (\<lambda>err. throw (NistError (if instanceof_Error err then message err
                                 else ascii ''SSR rendering failed'')))"

text \<open>
  What \<open>intercept\<close> hands back: the observable of the handler itself, a synchronous throw,
  or the handler's observable piped through \<open>switchMap\<close>. An error of the source observable
  bypasses the \<open>switchMap\<close> callback and is delivered as it is.
\<close>

datatype outcome =
    Passthrough "exn + jsval"
  | Thrown exn
  | Piped "exn + jsval"

definition invalid_page_name :: "ustring \<Rightarrow> exn" where
  "invalid_page_name name =
     NistError (ascii ''Invalid page name: '' @ name @
                ascii ''. Only alphanumeric characters, hyphens, and underscores are allowed.'')"

definition intercept :: "env \<Rightarrow> exec_context \<Rightarrow> world \<Rightarrow> outcome \<times> world" where
  "intercept e ctx w =
     (if \<not> present (pageRoot ctx) \<or> \<not> present (pageName ctx) then (Passthrough (handler ctx), w)
      else if \<not> validatePageName (the (pageName ctx))
      then (Thrown (invalid_page_name (the (pageName ctx))), w)
      else (case handler ctx of
              Inl err \<Rightarrow> (Piped (Inl err), w)
            | Inr result \<Rightarrow>
                (case render_page e ctx (the (pageRoot ctx)) (the (pageName ctx)) result w of
                   (r, w') \<Rightarrow> (Piped r, w'))))"


section \<open>Hydration codec, client side\<close>

subsection \<open>\<open>JSON.parse\<close>\<close>

text \<open>
  The built-in parser, as a recursive descent over the code units: white space between
  tokens, the literals, strings with their escapes (a raw control character is an error),
  arrays and objects. A number is an integer; a fraction or an exponent is outside the
  embedding and is refused, as every malformed text is (\<open>None\<close> is the \<open>SyntaxError\<close>).
  A member that repeats a name overwrites the earlier value, and the properties of the
  parsed object are in property order: the names that are array indices first, in
  ascending numeric order, then the other names in the order of the text. The recursion
  carries a bound that \<open>JSON_parse\<close> sets from the length of the text.
\<close>

definition is_ws :: "cu \<Rightarrow> bool" where
  "is_ws c = (c = 0x20 \<or> c = 0x09 \<or> c = 0x0A \<or> c = 0x0D)"

definition skip_ws :: "ustring \<Rightarrow> ustring" where
  "skip_ws s = dropWhile is_ws s"

definition is_digit :: "cu \<Rightarrow> bool" where
  "is_digit c = (0x30 \<le> c \<and> c \<le> 0x39)"

definition hex_value :: "cu \<Rightarrow> nat option" where
  "hex_value c =
     (if 0x30 \<le> c \<and> c \<le> 0x39 then Some (unat c - 0x30)
      else if 0x61 \<le> c \<and> c \<le> 0x66 then Some (unat c - 0x57)
      else if 0x41 \<le> c \<and> c \<le> 0x46 then Some (unat c - 0x37)
      else None)"

fun parse_hex4 :: "ustring \<Rightarrow> cu option" where
  "parse_hex4 [a, b, c, d] =
     (case (hex_value a, hex_value b, hex_value c, hex_value d) of
        (Some x3, Some x2, Some x1, Some x0) \<Rightarrow> Some (of_nat (x3 * 4096 + x2 * 256 + x1 * 16 + x0))
      | _ \<Rightarrow> None)"
| "parse_hex4 s = None"

definition simple_escape :: "cu \<Rightarrow> cu option" where
  "simple_escape d =
     (if d = 0x22 then Some 0x22
      else if d = 0x5C then Some 0x5C
      else if d = 0x2F then Some 0x2F
      else if d = 0x62 then Some 0x08
      else if d = 0x66 then Some 0x0C
      else if d = 0x6E then Some 0x0A
      else if d = 0x72 then Some 0x0D
      else if d = 0x74 then Some 0x09
      else None)"

definition prepend :: "cu \<Rightarrow> (ustring \<times> ustring) option \<Rightarrow> (ustring \<times> ustring) option" where
  "prepend c r = (case r of None \<Rightarrow> None | Some (s, rest) \<Rightarrow> Some (c # s, rest))"

text \<open>The characters of a string after its opening quote, up to the closing one.\<close>

fun parse_string_body :: "ustring \<Rightarrow> (ustring \<times> ustring) option" where
  "parse_string_body [] = None"
| "parse_string_body (c # cs) =
     (if c = 0x22 then Some ([], cs)
      else if c = 0x5C then
        (case cs of
           [] \<Rightarrow> None
         | d # ds \<Rightarrow>
             if d = 0x75 then
               (case parse_hex4 (take 4 ds) of
                  None \<Rightarrow> None
                | Some u \<Rightarrow> prepend u (parse_string_body (drop 4 ds)))
             else
               (case simple_escape d of
                  None \<Rightarrow> None
                | Some u \<Rightarrow> prepend u (parse_string_body ds)))
      else if c < 0x20 then None
      else prepend c (parse_string_body cs))"

definition digits_value :: "ustring \<Rightarrow> nat" where
  "digits_value ds = foldl (\<lambda>a d. 10 * a + (unat d - 0x30)) 0 ds"

text \<open>The digits of a number token: a single \<open>0\<close>, or a run of digits that does not start
  with \<open>0\<close>.\<close>

definition parse_digits :: "ustring \<Rightarrow> (nat \<times> ustring) option" where
  "parse_digits s =
     (case s of
        [] \<Rightarrow> None
      | c # cs \<Rightarrow>
          if c = 0x30 then Some (0, cs)
          else if is_digit c then Some (digits_value (takeWhile is_digit s), dropWhile is_digit s)
          else None)"

definition parse_number :: "ustring \<Rightarrow> (jsval \<times> ustring) option" where
  "parse_number s =
     (case (case s of
              [] \<Rightarrow> None
            | c # cs \<Rightarrow> if c = 0x2D
                        then (case parse_digits cs of
                                None \<Rightarrow> None
                              | Some (n, rest) \<Rightarrow> Some (- int n, rest))
                        else (case parse_digits s of
                                None \<Rightarrow> None
                              | Some (n, rest) \<Rightarrow> Some (int n, rest))) of
        None \<Rightarrow> None
      | Some (n, rest) \<Rightarrow>
          (case rest of
             [] \<Rightarrow> Some (JNum n, rest)
           | c # cs \<Rightarrow> if c = 0x2E \<or> c = 0x65 \<or> c = 0x45 then None else Some (JNum n, rest)))"

text \<open>An array index is the canonical decimal form of an integer below \<open>2^32 - 1\<close>.\<close>

definition is_array_index :: "ustring \<Rightarrow> bool" where
  "is_array_index k =
     (k \<noteq> [] \<and> list_all is_digit k \<and> (k = [0x30] \<or> hd k \<noteq> 0x30) \<and>
      digits_value k < 4294967295)"

definition property_order :: "(ustring \<times> jsval) list \<Rightarrow> (ustring \<times> jsval) list" where
  "property_order fs =
     sort_key (\<lambda>(k, v). digits_value k) (filter (\<lambda>(k, v). is_array_index k) fs) @
     filter (\<lambda>(k, v). \<not> is_array_index k) fs"

fun parse_value :: "nat \<Rightarrow> ustring \<Rightarrow> (jsval \<times> ustring) option"
  and parse_elements :: "nat \<Rightarrow> ustring \<Rightarrow> (jsval list \<times> ustring) option"
  and parse_members :: "nat \<Rightarrow> ustring \<Rightarrow> ((ustring \<times> jsval) list \<times> ustring) option" where
  "parse_value 0 s = None"
| "parse_value (Suc n) s =
     (case skip_ws s of
        [] \<Rightarrow> None
      | c # cs \<Rightarrow>
          if c = 0x7B then
            (case skip_ws cs of
               [] \<Rightarrow> None
             | d # ds \<Rightarrow>
                 if d = 0x7D then Some (JObj [], ds)
                 else (case parse_members n (d # ds) of
                         None \<Rightarrow> None
                       | Some (fs, rest) \<Rightarrow>
                           Some (JObj (property_order (spread [] (JObj fs))), rest)))
          else if c = 0x5B then
            (case skip_ws cs of
               [] \<Rightarrow> None
             | d # ds \<Rightarrow>
                 if d = 0x5D then Some (JArr [], ds)
                 else (case parse_elements n (d # ds) of
                         None \<Rightarrow> None
                       | Some (xs, rest) \<Rightarrow> Some (JArr xs, rest)))
          else if c = 0x22 then
            (case parse_string_body cs of
               None \<Rightarrow> None
             | Some (str, rest) \<Rightarrow> Some (JStr str, rest))
          else if startsWith (c # cs) (ascii ''null'') then Some (JNull, drop 4 (c # cs))
          else if startsWith (c # cs) (ascii ''true'') then Some (JBool True, drop 4 (c # cs))
          else if startsWith (c # cs) (ascii ''false'') then Some (JBool False, drop 5 (c # cs))
          else if c = 0x2D \<or> is_digit c then parse_number (c # cs)
          else None)"
| "parse_elements 0 s = None"
| "parse_elements (Suc n) s =
     (case parse_value n s of
        None \<Rightarrow> None
      | Some (v, rest) \<Rightarrow>
          (case skip_ws rest of
             [] \<Rightarrow> None
           | c # cs \<Rightarrow>
               if c = 0x5D then Some ([v], cs)
               else if c = 0x2C then
                 (case parse_elements n cs of
                    None \<Rightarrow> None
                  | Some (vs, rest') \<Rightarrow> Some (v # vs, rest'))
               else None))"
| "parse_members 0 s = None"
| "parse_members (Suc n) s =
     (case skip_ws s of
        [] \<Rightarrow> None
      | q # qs \<Rightarrow>
          if q \<noteq> 0x22 then None
          else
            (case parse_string_body qs of
               None \<Rightarrow> None
             | Some (k, rest) \<Rightarrow>
                 (case skip_ws rest of
                    [] \<Rightarrow> None
                  | c # cs \<Rightarrow>
                      if c \<noteq> 0x3A then None
                      else
                        (case parse_value n cs of
                           None \<Rightarrow> None
                         | Some (v, rest') \<Rightarrow>
                             (case skip_ws rest' of
                                [] \<Rightarrow> None
                              | d # ds \<Rightarrow>
                                  if d = 0x7D then Some ([(k, v)], ds)
                                  else if d = 0x2C then
                                    (case parse_members n ds of
                                       None \<Rightarrow> None
                                     | Some (fs, rest'') \<Rightarrow> Some ((k, v) # fs, rest''))
                                  else None)))))"

definition JSON_parse :: "ustring \<Rightarrow> jsval option" where
  "JSON_parse s =
     (case parse_value (2 * length s + 2) s of
        None \<Rightarrow> None
      | Some (v, rest) \<Rightarrow> if skip_ws rest = [] then Some v else None)"

subsection \<open>JSON-representable values\<close>

text \<open>
  The values of this embedding that have a JSON text of their own: neither \<open>undefined\<close>
  nor a function anywhere inside (\<open>JSON.stringify\<close> leaves such a property out and writes
  such an array element as \<open>null\<close>), every number a safe integer, and the properties of
  every object listed once each and in property order, as every object has them.
\<close>

fun json_rep :: "jsval \<Rightarrow> bool"
  and json_rep_elements :: "jsval list \<Rightarrow> bool"
  and json_rep_members :: "(ustring \<times> jsval) list \<Rightarrow> bool" where
  "json_rep JUndefined = False"
| "json_rep (JFunc f) = False"
| "json_rep JNull = True"
| "json_rep (JBool b) = True"
| "json_rep (JNum n) = (- 9007199254740992 < n \<and> n < 9007199254740992)"
| "json_rep (JStr s) = True"
| "json_rep (JArr xs) = json_rep_elements xs"
| "json_rep (JObj fs) = (distinct (map fst fs) \<and> property_order fs = fs \<and> json_rep_members fs)"
| "json_rep_elements [] = True"
| "json_rep_elements (x # xs) = (json_rep x \<and> json_rep_elements xs)"
| "json_rep_members [] = True"
| "json_rep_members ((k, v) # fs) = (json_rep v \<and> json_rep_members fs)"


subsection \<open>Global state of the client\<close>

text \<open>
  The globals of \<open>window\<close> that carry hydration state: the frozen object \<open>__NIST__\<close> and
  the five flattened aliases (\<open>undefined\<close> until assigned), with the current URL of the
  history and the \<open>nist:navigate\<close> events dispatched so far.
\<close>

record hydration_state =
  h_props :: jsval
  h_route :: jsval
  h_page :: jsval
  hydrated :: bool

record window =
  NIST :: "hydration_state option"
  INITIAL_PROPS :: jsval
  PAGE_NAME :: jsval
  ROUTE_PARAMS :: jsval
  QUERY_PARAMS :: jsval
  PATHNAME :: jsval
  location :: ustring
  dispatched :: "(jsval \<times> jsval) list"

text \<open>The bootstrap script the server embeds (\<open>createHydrationScripts\<close> and the fallback
  template carry the same text). Its assignments run in order inside one \<open>try\<close>: reading a
  property of \<open>null\<close> or \<open>undefined\<close> throws and leaves the later ones undone. The argument
  is the text content of the \<open>__NIST_DATA__\<close> element, \<open>None\<close> when the element is absent.\<close>

definition nullish :: "jsval \<Rightarrow> bool" where
  "nullish v = (v = JUndefined \<or> v = JNull)"

definition bootstrap :: "ustring option \<Rightarrow> window \<Rightarrow> window" where
  "bootstrap textContent win =
     (case textContent of
        None \<Rightarrow> win
      | Some t \<Rightarrow>
          (case JSON_parse (if t = [] then ascii ''{}'' else t) of
             None \<Rightarrow> win
           | Some d \<Rightarrow>
               if nullish d then win
               else
                 (let win1 = win\<lparr>NIST := Some \<lparr>h_props = get_prop d (ascii ''props''),
                                                 h_route = get_prop d (ascii ''route''),
                                                 h_page = get_prop d (ascii ''page''),
                                                 hydrated = False\<rparr>,
                                   INITIAL_PROPS := get_prop d (ascii ''props''),
                                   PAGE_NAME := get_prop d (ascii ''page'')\<rparr>
                  in if nullish (get_prop d (ascii ''route'')) then win1
                     else win1\<lparr>ROUTE_PARAMS :=
                                  get_prop (get_prop d (ascii ''route'')) (ascii ''params''),
                                QUERY_PARAMS :=
                                  get_prop (get_prop d (ascii ''route'')) (ascii ''query''),
                                PATHNAME :=
                                  get_prop (get_prop d (ascii ''route'')) (ascii ''pathname'')\<rparr>)))"

subsection \<open>Client navigation (router.tsx)\<close>

text \<open>White space of a regular expression (\<open>\s\<close>).\<close>

definition is_space :: "cu \<Rightarrow> bool" where
  "is_space c = ((0x09 \<le> c \<and> c \<le> 0x0D) \<or> c = 0x20 \<or> c = 0xA0 \<or> c = 0x1680 \<or>
                 (0x2000 \<le> c \<and> c \<le> 0x200A) \<or> c = 0x2028 \<or> c = 0x2029 \<or> c = 0x202F \<or>
                 c = 0x205F \<or> c = 0x3000 \<or> c = 0xFEFF)"

text \<open>A match of \<open>name\s*=\s*\<close> at the start of the text: what follows it.\<close>

definition after_assignment :: "ustring \<Rightarrow> ustring \<Rightarrow> ustring option" where
  "after_assignment name s =
     (if startsWith s name then
        (case dropWhile is_space (drop (length name) s) of
           [] \<Rightarrow> None
         | c # cs \<Rightarrow> if c = 0x3D then Some (dropWhile is_space cs) else None)
      else None)"

text \<open>\<open>/window\.__INITIAL_PROPS__\s*=\s*({[^}]+});/\<close> at the start of the text: group 1.\<close>

definition props_match_here :: "ustring \<Rightarrow> ustring option" where
  "props_match_here s =
     (case after_assignment (ascii ''window.__INITIAL_PROPS__'') s of
        None \<Rightarrow> None
      | Some r \<Rightarrow>
          (case r of
             [] \<Rightarrow> None
           | c # cs \<Rightarrow>
               if c = 0x7B \<and> takeWhile (\<lambda>x. x \<noteq> 0x7D) cs \<noteq> [] \<and>
                  startsWith (dropWhile (\<lambda>x. x \<noteq> 0x7D) cs) (ascii ''};'')
               then Some (0x7B # takeWhile (\<lambda>x. x \<noteq> 0x7D) cs @ [0x7D])
               else None))"

text \<open>\<open>/window\.__PAGE_NAME__\s*=\s*"([^"]+)";/\<close> at the start of the text: group 1.\<close>

definition page_name_match_here :: "ustring \<Rightarrow> ustring option" where
  "page_name_match_here s =
     (case after_assignment (ascii ''window.__PAGE_NAME__'') s of
        None \<Rightarrow> None
      | Some r \<Rightarrow>
          (case r of
             [] \<Rightarrow> None
           | c # cs \<Rightarrow>
               if c = 0x22 \<and> takeWhile (\<lambda>x. x \<noteq> 0x22) cs \<noteq> [] \<and>
                  startsWith (dropWhile (\<lambda>x. x \<noteq> 0x22) cs) [0x22, 0x3B]
               then Some (takeWhile (\<lambda>x. x \<noteq> 0x22) cs)
               else None))"

text \<open>\<open>html.match(re)\<close>: the leftmost position where the expression matches.\<close>

fun first_match :: "(ustring \<Rightarrow> ustring option) \<Rightarrow> ustring \<Rightarrow> ustring option" where
  "first_match m [] = m []"
| "first_match m (c # cs) = (case m (c # cs) of Some g \<Rightarrow> Some g | None \<Rightarrow> first_match m cs)"

datatype fetch_result = NetworkError | Response bool ustring

definition fetchAndRenderPage :: "fetch_result \<Rightarrow> window \<Rightarrow> window" where
  "fetchAndRenderPage response win =
     (case response of
        NetworkError \<Rightarrow> win
      | Response ok html \<Rightarrow>
          if \<not> ok then win
          else
            (case (first_match props_match_here html, first_match page_name_match_here html) of
               (Some propsText, Some name) \<Rightarrow>
                 (case JSON_parse propsText of
                    None \<Rightarrow> win
                  | Some props \<Rightarrow>
                      win\<lparr>INITIAL_PROPS := props, PAGE_NAME := JStr name,
                          dispatched := dispatched win @ [(props, JStr name)]\<rparr>)
             | _ \<Rightarrow> win))"

text \<open>\<open>navigate\<close> of the \<open>Router\<close>: nothing when the path is the current one; otherwise the
  URL is pushed and the page fetched. The second argument is what \<open>fetch\<close> delivers.\<close>

definition navigate :: "ustring \<Rightarrow> fetch_result \<Rightarrow> window \<Rightarrow> window" where
  "navigate path response win =
     (if path = location win then win
      else fetchAndRenderPage response (win\<lparr>location := path\<rparr>))"

section \<open>\<open>sanitizeInitialProps\<close> on a store of mutable objects\<close>

text \<open>
  To speak about cloning and mutation, objects get an address: a value is a primitive or
  a reference, the store is the list of allocated objects (an address is an index, a new
  object is added at the end). An object is an array, with its elements, or a plain
  object, with its properties by name (an array is dense and has no property besides its
  elements, as the arrays of the embedding's values are). The function copies the object it is given
  (\<open>[...data]\<close> or \<open>{...data}\<close>), then walks the keys of the copy: a key named \<open>password\<close> or
  \<open>passwordHash\<close> is deleted from the copy, a property holding an object is overwritten with
  the result of the recursive call.
\<close>

datatype sval = SUndefined | SNull | SBool bool | SNum int | SStr ustring | SFunc string | SRef nat

datatype sobj = SArr "sval list" | SObj "(ustring \<times> sval) list"

type_synonym store = "sobj list"

text \<open>The own enumerable properties of an object, as \<open>for (const key in sanitized)\<close> lists
  them (for an array the indices, as strings, with the elements), and an object of the
  same kind with other property values.\<close>

fun fields :: "sobj \<Rightarrow> (ustring \<times> sval) list" where
  "fields (SArr xs) = zip (map digits_of [0..<length xs]) xs"
| "fields (SObj fs) = fs"

fun with_fields :: "sobj \<Rightarrow> (ustring \<times> sval) list \<Rightarrow> sobj" where
  "with_fields (SArr old) fs = SArr (map snd fs)"
| "with_fields (SObj old) fs = SObj fs"













fun view :: "nat \<Rightarrow> store \<Rightarrow> sval \<Rightarrow> jsval" where
  "view n h SUndefined = JUndefined"
| "view n h SNull = JNull"
| "view n h (SBool b) = JBool b"
| "view n h (SNum i) = JNum i"
| "view n h (SStr s) = JStr s"
| "view n h (SFunc f) = JFunc f"
| "view 0 h (SRef a) = JUndefined"
| "view (Suc n) h (SRef a) =
     (case h ! a of
        SArr xs \<Rightarrow> JArr (map (view n h) xs)
      | SObj fs \<Rightarrow> JObj (map (\<lambda>(k, v). (k, view n h v)) fs))"





section \<open>Observations on traces and stores\<close>

fun is_schedule :: "event \<Rightarrow> bool" where
  "is_schedule (Issued t) = True"
| "is_schedule (Awaited ts) = True"
| "is_schedule ev = False"

fun is_load :: "event \<Rightarrow> bool" where
  "is_load (ViteLoad p) = True"
| "is_load ev = False"

text \<open>Every reference held by the module cache points into the store.\<close>

definition cache_ok :: "world \<Rightarrow> bool" where
  "cache_ok w = (\<forall>k r. MODULE_CACHE w k = Some r \<longrightarrow> r < length (modules w))"

section \<open>Sample projects and requests\<close>

text \<open>
  Concrete collaborators for the scenarios below. \<open>bare_env\<close> is a project directory in
  which no file exists and every load fails; in \<open>home_env\<close> every module loads and exports
  a component with a title; in \<open>companion_env\<close> every file exists as well, so each page has
  a companion metadata file; in \<open>redirect_env\<close> the page component throws a
  \<open>RedirectException\<close> while it is rendered.
\<close>

definition slash_join :: "ustring list \<Rightarrow> ustring" where
  "slash_join parts = join_with 0x2F (filter (\<lambda>p. p \<noteq> []) parts)"

definition bare_env :: env where
  "bare_env =
     \<lparr>production = False, existsSync = (\<lambda>p. False), readdirSync = (\<lambda>p. None),
      ssrLoadModule = (\<lambda>p. Inl (JsError (ascii ''Failed to load url''))),
      load_millis = (\<lambda>p. 5), path_join = slash_join,
      url_searchParams = (\<lambda>u b. Inr (JObj [])), randomBytes_hex = ascii ''00ff'',
      renderToString = (\<lambda>j. Inr (ascii ''<div></div>'')),
      transformIndexHtml = (\<lambda>u d. Inr (ascii ''<!DOCTYPE html>'')),
      toString = (\<lambda>v. case v of JStr s \<Rightarrow> s | _ \<Rightarrow> [])\<rparr>"

definition page_module :: js_module where
  "page_module =
     \<lparr>m_default = JFunc ''Page'', m_metadata = JObj [(ascii ''title'', JStr (ascii ''Home''))],
      m_getMetadata = None, m_config = JUndefined\<rparr>"

definition home_env :: env where
  "home_env = bare_env\<lparr>ssrLoadModule := (\<lambda>p. Inr page_module)\<rparr>"

definition companion_env :: env where
  "companion_env = home_env\<lparr>existsSync := (\<lambda>p. True)\<rparr>"

definition redirect_env :: env where
  "redirect_env =
     home_env\<lparr>renderToString := (\<lambda>j. Inl (RedirectException (ascii ''/login'') 302))\<rparr>"

definition fresh_world :: world where
  "fresh_world =
     \<lparr>now = 1000, statusCode = 200, headers = [], sent = None, modules = [],
      MODULE_CACHE = Map.empty, LAYOUT_CACHE = Map.empty, LAYOUT_DISCOVERY_CACHE = Map.empty,
      ROOT_LAYOUT_CACHE = Map.empty, trace = []\<rparr>"

definition get_request :: request where
  "get_request =
     \<lparr>req_params = JObj [], req_query = JObj [], req_path = Some (ascii ''/missing''),
      req_url = Some (ascii ''/missing''), req_host = Some (ascii ''localhost'')\<rparr>"

definition missing_ctx :: exec_context where
  "missing_ctx =
     \<lparr>pageRoot = Some (ascii ''/app/src''), pageName = Some (ascii ''missing''),
      hasPagesDir = False, customLayout = None, req = get_request, handler = Inr (JObj [])\<rparr>"

definition home_ctx :: exec_context where
  "home_ctx =
     \<lparr>pageRoot = Some (ascii ''/app/src''), pageName = Some (ascii ''home''),
      hasPagesDir = True, customLayout = None, req = get_request, handler = Inr (JObj [])\<rparr>"

definition empty_name_ctx :: exec_context where
  "empty_name_ctx = missing_ctx\<lparr>pageName := Some []\<rparr>"

definition traversal_ctx :: exec_context where
  "traversal_ctx = missing_ctx\<lparr>pageName := Some (ascii ''../secret'')\<rparr>"

definition plain_ctx :: exec_context where
  "plain_ctx = missing_ctx\<lparr>pageRoot := None, pageName := None\<rparr>"


text \<open>Four metadata layers with overlapping keys: the page redefines the nested record
  \<open>openGraph\<close> of the root layout, the controller sets \<open>title\<close> to \<open>undefined\<close>.\<close>

definition sample_root_metadata :: "(ustring \<times> jsval) list" where
  "sample_root_metadata =
     [(ascii ''title'', JStr (ascii ''Site'')),
      (ascii ''author'', JStr (ascii ''Root'')),
      (ascii ''openGraph'', JObj [(ascii ''title'', JStr (ascii ''Site'')),
                                  (ascii ''image'', JStr (ascii ''/logo.png''))])]"

definition sample_layout_metadata :: "(ustring \<times> jsval) list" where
  "sample_layout_metadata = [(ascii ''title'', JStr (ascii ''Section''))]"

definition sample_page_metadata :: "(ustring \<times> jsval) list" where
  "sample_page_metadata =
     [(ascii ''title'', JStr (ascii ''Home'')),
      (ascii ''openGraph'', JObj [(ascii ''title'', JStr (ascii ''Home''))])]"

definition sample_override_metadata :: "(ustring \<times> jsval) list" where
  "sample_override_metadata =
     [(ascii ''description'', JStr (ascii ''hi'')), (ascii ''title'', JUndefined)]"

text \<open>A module cache whose entry for the page \<open>home\<close> was stored at time 1005 and is read
  at time 20000, after the ten seconds of development mode.\<close>

definition home_page_path :: ustring where
  "home_page_path = ascii ''/app/src/pages/home.page.tsx''"

definition stale_world :: world where
  "stale_world =
     fresh_world\<lparr>now := 20000,
                 modules := [\<lparr>component = JFunc ''Page'',
                              metadata = JObj [(ascii ''title'', JStr (ascii ''Home''))],
                              config = JObj [], timestamp = 1005\<rparr>],
                 MODULE_CACHE := [home_page_path \<mapsto> 0]\<rparr>"

text \<open>A browser window before the first script runs; the payload of a first document for
  page \<open>a\<close>; a fetched document that carries the markers the router looks for, for page
  \<open>b\<close>; and the assignments as the server's own bootstrap script writes them.\<close>

definition empty_window :: window where
  "empty_window =
     \<lparr>NIST = None, INITIAL_PROPS = JUndefined, PAGE_NAME = JUndefined,
      ROUTE_PARAMS = JUndefined, QUERY_PARAMS = JUndefined, PATHNAME = JUndefined,
      location = ascii ''/'', dispatched = []\<rparr>"

definition first_payload :: ustring where
  \<open>first_payload = ascii ''{"props":{},"route":{"pathname":"/"},"page":"a"}''\<close>

definition nav_html :: ustring where
  \<open>nav_html = ascii ''window.__INITIAL_PROPS__ = {"x":1};window.__PAGE_NAME__ = "b";''\<close>

definition served_script :: ustring where
  \<open>served_script = ascii ''window.__INITIAL_PROPS__=_.props,window.__PAGE_NAME__=_.page,''\<close>

text \<open>A hydration payload with a string that would close the script element and with a
  line separator, and the text \<open>serializeJavaScript\<close> writes for it.\<close>

definition sample_payload :: jsval where
  "sample_payload =
     JObj [(ascii ''html'', JStr (ascii ''</script><script>'' @ [0x2028])),
           (ascii ''n'', JArr [JNum (- 12), JNull, JBool True])]"

definition sample_payload_text :: ustring where
  \<open>sample_payload_text =
     ascii ''{"html":"'' @ 0x5C # ascii ''u003c'' @ 0x5C # ascii ''u002fscript'' @
     0x5C # ascii ''u003e'' @ 0x5C # ascii ''u003cscript'' @ 0x5C # ascii ''u003e'' @
     0x5C # ascii ''u2028","n":[-12,null,true]}''\<close>

section \<open>Facts about strings\<close>

lemma str_includes_hd: "str_includes s p \<Longrightarrow> p \<noteq> [] \<Longrightarrow> hd p \<in> set s"
proof (induction s)
  case Nil
  then show ?case by simp
next
  case (Cons c cs)
  show ?case
  proof (cases "startsWith (c # cs) p")
    case True
    with Cons.prems(2) have "hd p = c"
      by (cases p) (auto simp: startsWith_def)
    then show ?thesis by simp
  next
    case False
    with Cons show ?thesis by auto
  qed
qed

lemma unsafe_separators:
  "\<not> safe_char 0x2E" "\<not> safe_char 0x2F" "\<not> safe_char 0x5C"
  by (simp_all add: safe_char_def)

lemma pattern_excludes:
  assumes "SAFE_PAGE_NAME_PATTERN_test n"
  shows "\<not> str_includes n (ascii ''..'')" "\<not> str_includes n (ascii ''/'')" "\<not> str_includes n [0x5C]"
proof -
  from assms have all: "\<forall>c \<in> set n. safe_char c"
    by (simp add: SAFE_PAGE_NAME_PATTERN_test_def list_all_iff)
  show "\<not> str_includes n (ascii ''..'')"
  proof
    assume "str_includes n (ascii ''..'')"
    then have "hd (ascii ''..'') \<in> set n" by (rule str_includes_hd) (simp add: ascii_def)
    then have "0x2E \<in> set n" by (simp add: ascii_def)
    with all unsafe_separators(1) show False by blast
  qed
  show "\<not> str_includes n (ascii ''/'')"
  proof
    assume "str_includes n (ascii ''/'')"
    then have "hd (ascii ''/'') \<in> set n" by (rule str_includes_hd) (simp add: ascii_def)
    then have "0x2F \<in> set n" by (simp add: ascii_def)
    with all unsafe_separators(2) show False by blast
  qed
  show "\<not> str_includes n [0x5C]"
  proof
    assume "str_includes n [0x5C]"
    then have "hd [0x5C] \<in> set n" by (rule str_includes_hd) simp
    with all unsafe_separators(3) show False by auto
  qed
qed

lemma validatePageName_iff: "validatePageName n = SAFE_PAGE_NAME_PATTERN_test n"
  using pattern_excludes [of n] by (auto simp: validatePageName_def)


section \<open>Running the pipeline\<close>

lemmas io_defs = ret_def throw_def bnd_def try_catch_def settle_def await_def emit_def
  fs_exists_def fs_readdir_def vite_load_def res_setHeader_def res_status_def res_end_def

lemma serializeJavaScript_object:
  "serializeJavaScript (JObj fs) =
     Inr (concat (map script_escape (0x7B # join_with 0x2C (stringify_members fs) @ [0x7D])))"
  by (simp add: serializeJavaScript_def JSON_stringify_def)

lemma setSecurityHeaders_run:
  "setSecurityHeaders hs w =
     (Inr (), w\<lparr>headers := fold (\<lambda>(k, v) acc. set_header acc k v) hs (headers w)\<rparr>)"
  by (induction hs arbitrary: w) (auto simp: io_defs)

lemma send_document_run:
  "transformIndexHtml e url html = Inr t \<Longrightarrow>
   send_document e url html w =
     (Inr JUndefined,
      w\<lparr>trace := trace w @ [Transform],
        headers := set_header (fold (\<lambda>(k, v) acc. set_header acc k v) SECURITY_HEADERS (headers w))
                     (ascii ''Content-Type'') (ascii ''text/html''),
        statusCode := 200, sent := Some t\<rparr>)"
  by (simp add: send_document_def transform_call_def setSecurityHeaders_run io_defs)

lemmas pipeline_defs = intercept_def render_page_def render_body_def extractRouteParams_def
  resolve_source_path_def load_modules_def loadPageModule_def MODULE_CACHE_hit_def
  loadNotFoundPage_def MODULE_CACHE_set_def loadRootLayout_def loadLayout_def discover_layout_def
  cached_layout_hit_def resolve_metadata_def
  build_document_def hydration_data_def serializeJavaScript_object render_call_def
  buildMetaTags_def meta_field_def mergeMetadata_def spread_def default_not_found_metadata_def
  or_else_def present_def Let_def

lemmas sample_defs = missing_ctx_def home_ctx_def empty_name_ctx_def traversal_ctx_def
  plain_ctx_def get_request_def bare_env_def home_env_def companion_env_def redirect_env_def
  page_module_def fresh_world_def DefaultNotFound_def

lemmas name_defs = validatePageName_def startsWith_def SAFE_PAGE_NAME_PATTERN_test_def
  safe_char_def ascii_def

section \<open>Not-found responses\<close>

text \<open>
  C1. A request for the page \<open>missing\<close> in a project without that page and without a custom
  not-found page: the built-in not-found artifact is substituted, with its
  \<open>robots: "noindex, nofollow"\<close> metadata, and status 404 is set while the modules are
  loaded; but the response is sent by \<open>res.status(200).end(...)\<close>, so it leaves with
  status 200.
\<close>

theorem missing_page_sent_with_status_200:
  "fst (intercept bare_env missing_ctx fresh_world) = Piped (Inr JUndefined) \<and>
   statusCode (snd (load_modules bare_env missing_ctx (ascii ''/app/src'')
                      (ascii ''/app/src/missing.page.tsx'') fresh_world)) = 404 \<and>
   component (modules (snd (intercept bare_env missing_ctx fresh_world)) ! 0) = DefaultNotFound \<and>
   get_prop (metadata (modules (snd (intercept bare_env missing_ctx fresh_world)) ! 0))
     (ascii ''robots'') = JStr (ascii ''noindex, nofollow'') \<and>
   sent (snd (intercept bare_env missing_ctx fresh_world)) = Some (ascii ''<!DOCTYPE html>'') \<and>
   statusCode (snd (intercept bare_env missing_ctx fresh_world)) = 200"
proof -
  have run: "\<exists>W. intercept bare_env missing_ctx fresh_world = (Piped (Inr JUndefined), W) \<and>
       statusCode W = 200 \<and> sent W = Some (ascii ''<!DOCTYPE html>'') \<and>
       component (modules W ! 0) = DefaultNotFound \<and>
       get_prop (metadata (modules W ! 0)) (ascii ''robots'') = JStr (ascii ''noindex, nofollow'')"
    by (simp add: pipeline_defs send_document_run io_defs sample_defs name_defs)
  have loading: "statusCode (snd (load_modules bare_env missing_ctx (ascii ''/app/src'')
                      (ascii ''/app/src/missing.page.tsx'') fresh_world)) = 404"
    by (simp add: pipeline_defs io_defs sample_defs)
  from run loading show ?thesis by auto
qed

theorem missing_page_sent_with_status_200_witness:
  "fst (intercept bare_env missing_ctx fresh_world) = Piped (Inr JUndefined) \<and>
   statusCode (snd (intercept bare_env missing_ctx fresh_world)) = 200"
  using missing_page_sent_with_status_200 by blast

section \<open>Redirect signals\<close>

text \<open>
  C2, as the claim states it, fails: a \<open>RedirectException\<close> thrown while the page is rendered
  is caught by the \<open>catch\<close> of the callback and replaced by a \<open>NistError\<close>. Since
  \<open>RedirectException\<close> is not an \<open>Error\<close>, the message is \<open>SSR rendering failed\<close>.
\<close>

theorem redirect_from_render_is_wrapped:
  "renderToString redirect_env (RenderPage (Bare (JFunc ''Page'')) (JObj [])) =
     Inl (RedirectException (ascii ''/login'') 302) \<and>
   fst (intercept redirect_env home_ctx fresh_world) =
     Piped (Inl (NistError (ascii ''SSR rendering failed'')))"
proof -
  have "\<exists>W. intercept redirect_env home_ctx fresh_world =
          (Piped (Inl (NistError (ascii ''SSR rendering failed''))), W)"
    by (simp add: pipeline_defs send_document_run io_defs sample_defs name_defs)
  then show ?thesis by (auto simp: redirect_env_def)
qed

text \<open>
  C2, amended. For a page request (a non-empty page root and a valid page name): a
  \<open>RedirectException\<close> delivered by the route handler's observable passes through the
  interceptor unchanged, with its url and status code and with no effect on the state.
  When the handler delivers a value, nothing leaves the pipeline as a
  \<open>RedirectException\<close>: the outcome is a value or a \<open>NistError\<close>, and a \<open>RedirectException\<close>
  that the \<open>try\<close> block of the callback throws, rendering included, is replaced by a
  \<open>NistError\<close> with the message \<open>SSR rendering failed\<close>.
\<close>

theorem redirect_signal_handling:
  assumes "present (pageRoot ctx)" and "present (pageName ctx)"
    and "validatePageName (the (pageName ctx))"
  shows "intercept e (ctx\<lparr>handler := Inl (RedirectException url code)\<rparr>) w =
           (Piped (Inl (RedirectException url code)), w) \<and>
         (\<forall>result. \<exists>r w'.
            intercept e (ctx\<lparr>handler := Inr result\<rparr>) w = (Piped r, w') \<and>
            (\<forall>u c. r \<noteq> Inl (RedirectException u c)) \<and>
            (\<forall>x. r = Inl x \<longrightarrow> (\<exists>m. x = NistError m)) \<and>
            (\<forall>u c w''.
               render_body e (ctx\<lparr>handler := Inr result\<rparr>) (the (pageRoot ctx))
                 (the (pageName ctx)) result w = (Inl (RedirectException u c), w'') \<longrightarrow>
               r = Inl (NistError (ascii ''SSR rendering failed'')) \<and> w' = w''))"
proof (intro conjI allI)
  show "intercept e (ctx\<lparr>handler := Inl (RedirectException url code)\<rparr>) w =
           (Piped (Inl (RedirectException url code)), w)"
    using assms by (simp add: intercept_def)
next
  fix result
  obtain res w1 where run: "render_body e (ctx\<lparr>handler := Inr result\<rparr>) (the (pageRoot ctx))
                 (the (pageName ctx)) result w = (res, w1)"
    by (cases "render_body e (ctx\<lparr>handler := Inr result\<rparr>) (the (pageRoot ctx))
                 (the (pageName ctx)) result w")
  show "\<exists>r w'.
            intercept e (ctx\<lparr>handler := Inr result\<rparr>) w = (Piped r, w') \<and>
            (\<forall>u c. r \<noteq> Inl (RedirectException u c)) \<and>
            (\<forall>x. r = Inl x \<longrightarrow> (\<exists>m. x = NistError m)) \<and>
            (\<forall>u c w''.
               render_body e (ctx\<lparr>handler := Inr result\<rparr>) (the (pageRoot ctx))
                 (the (pageName ctx)) result w = (Inl (RedirectException u c), w'') \<longrightarrow>
               r = Inl (NistError (ascii ''SSR rendering failed'')) \<and> w' = w'')"
  proof (cases res)
    case (Inl err)
    with run assms have "intercept e (ctx\<lparr>handler := Inr result\<rparr>) w =
        (Piped (Inl (NistError (if instanceof_Error err then message err
                                 else ascii ''SSR rendering failed''))), w1)"
      by (simp add: intercept_def render_page_def try_catch_def throw_def)
    with run Inl show ?thesis by auto
  next
    case (Inr x)
    with run assms have "intercept e (ctx\<lparr>handler := Inr result\<rparr>) w = (Piped (Inr x), w1)"
      by (simp add: intercept_def render_page_def try_catch_def)
    with run Inr show ?thesis by auto
  qed
qed

theorem redirect_signal_handling_witness:
  "present (pageRoot home_ctx) \<and> present (pageName home_ctx) \<and>
   validatePageName (the (pageName home_ctx)) \<and>
   intercept redirect_env (home_ctx\<lparr>handler := Inl (RedirectException (ascii ''/login'') 302)\<rparr>)
     fresh_world = (Piped (Inl (RedirectException (ascii ''/login'') 302)), fresh_world) \<and>
   fst (render_body redirect_env home_ctx (the (pageRoot home_ctx)) (the (pageName home_ctx))
          (JObj []) fresh_world) = Inl (RedirectException (ascii ''/login'') 302) \<and>
   fst (intercept redirect_env home_ctx fresh_world) =
     Piped (Inl (NistError (ascii ''SSR rendering failed'')))"
proof -
  have a: "present (pageRoot home_ctx)" "present (pageName home_ctx)"
    by (simp_all add: home_ctx_def present_def ascii_def)
  have b: "validatePageName (the (pageName home_ctx))"
    by (simp add: home_ctx_def name_defs)
  have c: "home_ctx\<lparr>handler := Inr (JObj [])\<rparr> = home_ctx"
    by (simp add: home_ctx_def)
  have "\<exists>W. render_body redirect_env home_ctx (the (pageRoot home_ctx))
               (the (pageName home_ctx)) (JObj []) fresh_world =
             (Inl (RedirectException (ascii ''/login'') 302), W)"
    by (simp add: pipeline_defs send_document_run io_defs sample_defs name_defs)
  then obtain W where d: "render_body redirect_env home_ctx (the (pageRoot home_ctx))
               (the (pageName home_ctx)) (JObj []) fresh_world =
             (Inl (RedirectException (ascii ''/login'') 302), W)" ..
  have e: "fst (render_body redirect_env home_ctx (the (pageRoot home_ctx))
               (the (pageName home_ctx)) (JObj []) fresh_world) =
             Inl (RedirectException (ascii ''/login'') 302)"
    by (simp only: d fst_conv)
  note t = redirect_signal_handling [OF a b, where e = redirect_env and w = fresh_world
      and url = "ascii ''/login''" and code = 302]
  note pass = t [THEN conjunct1]
  from t [THEN conjunct2, rule_format, of "JObj []"]
  obtain r w' where
    run: "intercept redirect_env (home_ctx\<lparr>handler := Inr (JObj [])\<rparr>) fresh_world = (Piped r, w')"
    and wrapped: "\<forall>u c w''.
       render_body redirect_env (home_ctx\<lparr>handler := Inr (JObj [])\<rparr>) (the (pageRoot home_ctx))
         (the (pageName home_ctx)) (JObj []) fresh_world = (Inl (RedirectException u c), w'') \<longrightarrow>
       r = Inl (NistError (ascii ''SSR rendering failed'')) \<and> w' = w''"
    by blast
  from wrapped [unfolded c] d have "r = Inl (NistError (ascii ''SSR rendering failed''))"
    by blast
  with run [unfolded c] have g: "fst (intercept redirect_env home_ctx fresh_world) =
             Piped (Inl (NistError (ascii ''SSR rendering failed'')))"
    by simp
  from a b pass e g show ?thesis by blast
qed

section \<open>Page-name validation\<close>

text \<open>
  C5, as the claim states it, fails for the empty page name: \<open>!pageName\<close> is true for it,
  so the interceptor returns the handler's observable before the name is validated; no
  invalid-input error is raised.
\<close>

theorem empty_page_name_is_passed_through:
  "pageName empty_name_ctx = Some [] \<and> \<not> SAFE_PAGE_NAME_PATTERN_test [] \<and>
   intercept bare_env empty_name_ctx fresh_world =
     (Passthrough (handler empty_name_ctx), fresh_world)"
  by (simp add: intercept_def present_def empty_name_ctx_def SAFE_PAGE_NAME_PATTERN_test_def)

text \<open>
  C5, amended. A request without a page root, or with an empty page name, is handed to
  the route handler with the state unchanged: the name is not validated, nothing is
  thrown, nothing is loaded. For a request with a page root and a non-empty page name:
  a name that does not match \<open>^[a-zA-Z0-9_-]+$\<close>, in particular one that contains \<open>..\<close>, \<open>/\<close>
  or a backslash, makes \<open>intercept\<close> throw the invalid-page-name error with the state
  unchanged, so no file system call and no load precede the rejection. And whenever
  \<open>intercept\<close> changes the state at all (a file system call, a load, a header, a body), the
  page name matches the pattern.
\<close>

theorem unsafe_page_name_rejected_before_io:
  "(\<not> present (pageRoot ctx) \<or> pageName ctx = Some [] \<longrightarrow>
      intercept e ctx w = (Passthrough (handler ctx), w)) \<and>
   (present (pageRoot ctx) \<and> pageName ctx = Some name \<and> name \<noteq> [] \<and>
    (\<not> SAFE_PAGE_NAME_PATTERN_test name \<or> str_includes name (ascii ''..'') \<or>
     str_includes name (ascii ''/'') \<or> str_includes name [0x5C]) \<longrightarrow>
      intercept e ctx w = (Thrown (invalid_page_name name), w)) \<and>
   (snd (intercept e ctx w) \<noteq> w \<longrightarrow>
      (\<exists>n. pageName ctx = Some n \<and> SAFE_PAGE_NAME_PATTERN_test n))"
proof (intro conjI impI)
  assume "\<not> present (pageRoot ctx) \<or> pageName ctx = Some []"
  then show "intercept e ctx w = (Passthrough (handler ctx), w)"
    by (auto simp: intercept_def present_def)
next
  assume a: "present (pageRoot ctx) \<and> pageName ctx = Some name \<and> name \<noteq> [] \<and>
    (\<not> SAFE_PAGE_NAME_PATTERN_test name \<or> str_includes name (ascii ''..'') \<or>
     str_includes name (ascii ''/'') \<or> str_includes name [0x5C])"
  then have "present (pageName ctx)" by (simp add: present_def)
  moreover have "\<not> SAFE_PAGE_NAME_PATTERN_test name"
    using a pattern_excludes [of name] by blast
  ultimately show "intercept e ctx w = (Thrown (invalid_page_name name), w)"
    using a by (simp add: intercept_def validatePageName_iff)
next
  assume moved: "snd (intercept e ctx w) \<noteq> w"
  then have p: "present (pageName ctx)" and v: "validatePageName (the (pageName ctx))"
    by (auto simp: intercept_def split: if_splits)
  from p obtain n where "pageName ctx = Some n" by (cases "pageName ctx") (simp_all add: present_def)
  with v show "\<exists>n. pageName ctx = Some n \<and> SAFE_PAGE_NAME_PATTERN_test n"
    by (simp add: validatePageName_iff)
qed

theorem unsafe_page_name_rejected_before_io_witness:
  "intercept bare_env traversal_ctx fresh_world =
     (Thrown (invalid_page_name (ascii ''../secret'')), fresh_world) \<and>
   intercept bare_env (traversal_ctx\<lparr>pageRoot := None\<rparr>) fresh_world =
     (Passthrough (handler traversal_ctx), fresh_world) \<and>
   intercept bare_env empty_name_ctx fresh_world =
     (Passthrough (handler empty_name_ctx), fresh_world) \<and>
   snd (intercept home_env home_ctx fresh_world) \<noteq> fresh_world \<and>
   pageName home_ctx = Some (ascii ''home'') \<and> SAFE_PAGE_NAME_PATTERN_test (ascii ''home'')"
proof -
  have a: "present (pageRoot traversal_ctx) \<and> pageName traversal_ctx = Some (ascii ''../secret'') \<and>
           ascii ''../secret'' \<noteq> [] \<and>
           (\<not> SAFE_PAGE_NAME_PATTERN_test (ascii ''../secret'') \<or>
            str_includes (ascii ''../secret'') (ascii ''..'') \<or>
            str_includes (ascii ''../secret'') (ascii ''/'') \<or>
            str_includes (ascii ''../secret'') [0x5C])"
    by (simp add: traversal_ctx_def missing_ctx_def present_def ascii_def startsWith_def)
  have b: "\<not> present (pageRoot (traversal_ctx\<lparr>pageRoot := None\<rparr>)) \<or>
           pageName (traversal_ctx\<lparr>pageRoot := None\<rparr>) = Some []"
    by (simp add: present_def)
  have c: "\<not> present (pageRoot empty_name_ctx) \<or> pageName empty_name_ctx = Some []"
    by (simp add: empty_name_ctx_def)
  have "\<exists>W. intercept home_env home_ctx fresh_world = (Piped (Inr JUndefined), W) \<and>
          trace W \<noteq> []"
    by (simp add: pipeline_defs send_document_run io_defs sample_defs name_defs)
  then have d: "snd (intercept home_env home_ctx fresh_world) \<noteq> fresh_world"
    by (auto simp: fresh_world_def)
  note t1 = unsafe_page_name_rejected_before_io
    [where ctx = traversal_ctx and name = "ascii ''../secret''" and e = bare_env
        and w = fresh_world,
      THEN conjunct2, THEN conjunct1, rule_format, OF a]
  note t2 = unsafe_page_name_rejected_before_io
    [where ctx = "traversal_ctx\<lparr>pageRoot := None\<rparr>" and e = bare_env and w = fresh_world,
      THEN conjunct1, rule_format, OF b]
  note t3 = unsafe_page_name_rejected_before_io
    [where ctx = empty_name_ctx and e = bare_env and w = fresh_world, THEN conjunct1, rule_format, OF c]
  note t4 = unsafe_page_name_rejected_before_io
    [where ctx = home_ctx and e = home_env and w = fresh_world, THEN conjunct2, THEN conjunct2, rule_format, OF d]
  from t4 have e: "pageName home_ctx = Some (ascii ''home'') \<and>
                   SAFE_PAGE_NAME_PATTERN_test (ascii ''home'')"
    by (auto simp: home_ctx_def)
  have f: "handler (traversal_ctx\<lparr>pageRoot := None\<rparr>) = handler traversal_ctx"
    by simp
  from t1 t2 t3 d e f show ?thesis by simp
qed

section \<open>Requests without page metadata\<close>

text \<open>
  C10. When the class has no page-root metadata or the handler has no page-name metadata,
  \<open>intercept\<close> returns the observable of \<open>next.handle()\<close> itself and leaves the state as it
  was: no call to the file system or the loader, no header, no status, no body.
\<close>

theorem intercept_without_page_metadata:
  "pageRoot ctx = None \<or> pageName ctx = None \<Longrightarrow>
   intercept e ctx w = (Passthrough (handler ctx), w)"
  by (auto simp: intercept_def present_def)

theorem intercept_without_page_metadata_witness:
  "(pageRoot plain_ctx = None \<or> pageName plain_ctx = None) \<and>
   intercept bare_env plain_ctx fresh_world = (Passthrough (Inr (JObj [])), fresh_world)"
proof -
  have a: "pageRoot plain_ctx = None \<or> pageName plain_ctx = None"
    by (simp add: plain_ctx_def)
  have "handler plain_ctx = Inr (JObj [])"
    by (simp add: plain_ctx_def missing_ctx_def)
  with intercept_without_page_metadata [OF a, of bare_env fresh_world] a show ?thesis by simp
qed

section \<open>Order of the module loads\<close>

text \<open>
  C9. The loads of one request for the page \<open>home\<close> (with a pages subdirectory), in the
  order in which they are started and awaited: the page load is started and awaited
  alone; only then are the nested-layout load and the root-layout load started, and those
  two are awaited together. The fan-out is two-way, after a sequential page load.
\<close>

theorem page_load_awaited_before_layout_loads_start:
  "filter is_schedule (trace (snd (intercept home_env home_ctx fresh_world))) =
     [Issued LoadPage, Awaited [LoadPage],
      Issued LoadLayout, Issued LoadRootLayout, Awaited [LoadLayout, LoadRootLayout]]"
proof -
  have "\<exists>W. intercept home_env home_ctx fresh_world = (Piped (Inr JUndefined), W) \<and>
          filter is_schedule (trace W) =
            [Issued LoadPage, Awaited [LoadPage],
             Issued LoadLayout, Issued LoadRootLayout, Awaited [LoadLayout, LoadRootLayout]]"
    by (simp add: pipeline_defs send_document_run io_defs sample_defs name_defs)
  then show ?thesis by auto
qed

theorem page_load_awaited_before_layout_loads_start_witness:
  "take 3 (filter is_schedule (trace (snd (intercept home_env home_ctx fresh_world)))) =
     [Issued LoadPage, Awaited [LoadPage], Issued LoadLayout]"
  using page_load_awaited_before_layout_loads_start by simp

section \<open>Metadata merge\<close>

lemma lookup_set_prop: "lookup (set_prop fs k v) k' = (if k' = k then Some v else lookup fs k')"
  by (induction fs) auto

lemma key_in_keys: "(k, v) \<in> set fs \<Longrightarrow> k \<in> fst ` set fs"
  by force
lemma keys_set_prop: "fst ` set (set_prop fs k v) = insert k (fst ` set fs)"
proof (induction fs)
  case Nil
  show ?case by simp
next
  case (Cons a fs)
  obtain k' v' where a: "a = (k', v')" by (cases a)
  show ?case
  proof (cases "k' = k")
    case True
    with a show ?thesis by simp
  next
    case False
    with a Cons.IH show ?thesis by (simp add: insert_commute)
  qed
qed
lemma lookup_absent: "k \<notin> fst ` set fs \<Longrightarrow> lookup fs k = None"
  by (induction fs) (auto dest: key_in_keys)

lemma lookup_assign_all:
  "distinct (map fst src) \<Longrightarrow>
   lookup (fold (\<lambda>(k, v) acc. set_prop acc k v) src tgt) k =
     (case lookup src k of Some v \<Rightarrow> Some v | None \<Rightarrow> lookup tgt k)"
proof (induction src arbitrary: tgt)
  case Nil
  then show ?case by simp
next
  case (Cons kv src)
  obtain k0 v0 where kv: "kv = (k0, v0)" by (cases kv)
  from Cons.prems kv have d: "distinct (map fst src)" and fresh: "k0 \<notin> fst ` set src"
    by auto
  show ?case
  proof (cases "k0 = k")
    case True
    with fresh have "lookup src k = None" by (simp add: lookup_absent)
    with True kv Cons.IH [OF d] show ?thesis by (simp add: lookup_set_prop)
  next
    case False
    with kv Cons.IH [OF d] show ?thesis by (simp add: lookup_set_prop split: option.splits)
  qed
qed

lemma keys_assign_all:
  "fst ` set (fold (\<lambda>(k, v) acc. set_prop acc k v) src tgt) = fst ` set tgt \<union> fst ` set src"
proof (induction src arbitrary: tgt)
  case Nil
  then show ?case by simp
next
  case (Cons kv src)
  obtain k0 v0 where kv: "kv = (k0, v0)" by (cases kv)
  have "fst ` set (fold (\<lambda>(k, v) acc. set_prop acc k v) src (set_prop tgt k0 v0)) =
          fst ` set (set_prop tgt k0 v0) \<union> fst ` set src"
    by (rule Cons.IH)
  then show ?case using kv by (auto simp: keys_set_prop)
qed

lemma lookup_spread:
  "distinct (map fst fs) \<Longrightarrow>
   lookup (spread tgt (JObj fs)) k =
     (case lookup fs k of Some v \<Rightarrow> Some v | None \<Rightarrow> lookup tgt k)"
  by (simp add: spread_def lookup_assign_all)

lemma keys_spread: "fst ` set (spread tgt (JObj fs)) = fst ` set tgt \<union> fst ` set fs"
  by (simp add: spread_def keys_assign_all)

lemma distinct_set_prop: "distinct (map fst fs) \<Longrightarrow> distinct (map fst (set_prop fs k v))"
proof (induction fs)
  case Nil
  show ?case by simp
next
  case (Cons a fs)
  obtain k' v' where a: "a = (k', v')" by (cases a)
  show ?case
  proof (cases "k' = k")
    case True
    with a Cons.prems show ?thesis by simp
  next
    case False
    from Cons.prems a have "k' \<notin> fst ` set fs" and "distinct (map fst fs)" by auto
    with False have "k' \<notin> fst ` set (set_prop fs k v)" by (simp add: keys_set_prop)
    with False a Cons.IH [OF \<open>distinct (map fst fs)\<close>] show ?thesis by simp
  qed
qed

lemma distinct_assign_all:
  "distinct (map fst tgt) \<Longrightarrow>
   distinct (map fst (fold (\<lambda>(k, v) acc. set_prop acc k v) src tgt))"
proof (induction src arbitrary: tgt)
  case Nil
  then show ?case by simp
next
  case (Cons kv src)
  obtain k0 v0 where kv: "kv = (k0, v0)" by (cases kv)
  from Cons.prems have "distinct (map fst (set_prop tgt k0 v0))" by (rule distinct_set_prop)
  then have "distinct (map fst (fold (\<lambda>(k, v) acc. set_prop acc k v) src (set_prop tgt k0 v0)))"
    by (rule Cons.IH)
  then show ?case using kv by simp
qed

lemma distinct_spread: "distinct (map fst tgt) \<Longrightarrow> distinct (map fst (spread tgt src))"
  by (simp add: spread_def distinct_assign_all)

text \<open>
  C6. The merge of four metadata records (objects, each with its property names
  distinct) is a shallow overlay: for every key the result holds the value, taken whole,
  of the last of root layout, nested layout, page, controller override that defines the
  key; the keys of the result are exactly the keys of the four layers, so no key is
  dropped, also not one that a later layer defines as \<open>undefined\<close> (the result then holds
  \<open>undefined\<close> under that key); and the result has each key once.
\<close>

theorem metadata_merge_precedence:
  assumes "distinct (map fst root)" and "distinct (map fst nested)"
    and "distinct (map fst page)" and "distinct (map fst override)"
  shows "lookup (mergeMetadata (JObj root) (JObj nested) (JObj page) (JObj override)) k =
           (case lookup override k of
              Some v \<Rightarrow> Some v
            | None \<Rightarrow>
                (case lookup page k of
                   Some v \<Rightarrow> Some v
                 | None \<Rightarrow>
                     (case lookup nested k of
                        Some v \<Rightarrow> Some v
                      | None \<Rightarrow> lookup root k))) \<and>
         fst ` set (mergeMetadata (JObj root) (JObj nested) (JObj page) (JObj override)) =
           fst ` set root \<union> fst ` set nested \<union> fst ` set page \<union> fst ` set override \<and>
         distinct (map fst (mergeMetadata (JObj root) (JObj nested) (JObj page) (JObj override)))"
proof -
  have "lookup (spread [] (JObj root)) k = lookup root k"
    using assms(1) by (simp add: lookup_spread split: option.splits)
  then have "lookup (spread (spread (spread (spread [] (JObj root)) (JObj nested)) (JObj page))
                 (JObj override)) k =
           (case lookup override k of
              Some v \<Rightarrow> Some v
            | None \<Rightarrow>
                (case lookup page k of
                   Some v \<Rightarrow> Some v
                 | None \<Rightarrow>
                     (case lookup nested k of
                        Some v \<Rightarrow> Some v
                      | None \<Rightarrow> lookup root k)))"
    using assms by (simp add: lookup_spread split: option.splits)
  moreover have "fst ` set (spread (spread (spread (spread [] (JObj root)) (JObj nested))
                   (JObj page)) (JObj override)) =
           fst ` set root \<union> fst ` set nested \<union> fst ` set page \<union> fst ` set override"
    by (simp add: keys_spread)
  moreover have "distinct (map fst (spread (spread (spread (spread [] (JObj root)) (JObj nested))
                   (JObj page)) (JObj override)))"
    by (intro distinct_spread) simp
  ultimately show ?thesis by (simp add: mergeMetadata_def)
qed

theorem metadata_merge_precedence_witness:
  "distinct (map fst sample_root_metadata) \<and> distinct (map fst sample_layout_metadata) \<and>
   distinct (map fst sample_page_metadata) \<and> distinct (map fst sample_override_metadata) \<and>
   lookup (mergeMetadata (JObj sample_root_metadata) (JObj sample_layout_metadata)
             (JObj sample_page_metadata) (JObj sample_override_metadata)) (ascii ''openGraph'') =
     Some (JObj [(ascii ''title'', JStr (ascii ''Home''))]) \<and>
   lookup (mergeMetadata (JObj sample_root_metadata) (JObj sample_layout_metadata)
             (JObj sample_page_metadata) (JObj sample_override_metadata)) (ascii ''title'') =
     Some JUndefined \<and>
   lookup (mergeMetadata (JObj sample_root_metadata) (JObj sample_layout_metadata)
             (JObj sample_page_metadata) (JObj sample_override_metadata)) (ascii ''author'') =
     Some (JStr (ascii ''Root'')) \<and>
   distinct (map fst (mergeMetadata (JObj sample_root_metadata) (JObj sample_layout_metadata)
             (JObj sample_page_metadata) (JObj sample_override_metadata)))"
proof -
  have d: "distinct (map fst sample_root_metadata)" "distinct (map fst sample_layout_metadata)"
    "distinct (map fst sample_page_metadata)" "distinct (map fst sample_override_metadata)"
    by (simp_all add: sample_root_metadata_def sample_layout_metadata_def
          sample_page_metadata_def sample_override_metadata_def ascii_def)
  note m = metadata_merge_precedence [OF d, THEN conjunct1]
  note once = metadata_merge_precedence [OF d, THEN conjunct2, THEN conjunct2]
  have "lookup (mergeMetadata (JObj sample_root_metadata) (JObj sample_layout_metadata)
             (JObj sample_page_metadata) (JObj sample_override_metadata)) (ascii ''openGraph'') =
     Some (JObj [(ascii ''title'', JStr (ascii ''Home''))])"
    by (subst m) (simp add: sample_root_metadata_def sample_layout_metadata_def
          sample_page_metadata_def sample_override_metadata_def ascii_def)
  moreover have "lookup (mergeMetadata (JObj sample_root_metadata) (JObj sample_layout_metadata)
             (JObj sample_page_metadata) (JObj sample_override_metadata)) (ascii ''title'') =
     Some JUndefined"
    by (subst m) (simp add: sample_root_metadata_def sample_layout_metadata_def
          sample_page_metadata_def sample_override_metadata_def ascii_def)
  moreover have "lookup (mergeMetadata (JObj sample_root_metadata) (JObj sample_layout_metadata)
             (JObj sample_page_metadata) (JObj sample_override_metadata)) (ascii ''author'') =
     Some (JStr (ascii ''Root''))"
    by (subst m) (simp add: sample_root_metadata_def sample_layout_metadata_def
          sample_page_metadata_def sample_override_metadata_def ascii_def)
  ultimately show ?thesis using d once by blast
qed

section \<open>Module cache\<close>

lemma loadPageModule_hit:
  "MODULE_CACHE w key = Some r \<Longrightarrow> within_ttl e (now w) (timestamp (modules w ! r)) \<Longrightarrow>
   loadPageModule e key w = (Inr r, w)"
  by (simp add: loadPageModule_def MODULE_CACHE_hit_def)

lemma loadPageModule_reload:
  assumes "MODULE_CACHE_hit e w key = None" and "ssrLoadModule e key = Inr m"
    and "existsSync e (replace key (ascii ''.page.tsx'') (ascii ''.metadata.ts'')) \<or>
         (\<forall>err. m_getMetadata m \<noteq> Some (Inl err))"
  shows "\<exists>w2. loadPageModule e key w = (Inr (length (modules w)), w2) \<and>
           take (length (modules w)) (modules w2) = modules w \<and>
           MODULE_CACHE w2 key = Some (length (modules w)) \<and>
           filter is_load (drop (length (trace w)) (trace w2)) =
             ViteLoad key #
             (if existsSync e (replace key (ascii ''.page.tsx'') (ascii ''.metadata.ts''))
              then [ViteLoad (replace key (ascii ''.page.tsx'') (ascii ''.metadata.ts''))]
              else [])"
proof (cases "existsSync e (replace key (ascii ''.page.tsx'') (ascii ''.metadata.ts''))")
  case True
  show ?thesis
  proof (cases "ssrLoadModule e (replace key (ascii ''.page.tsx'') (ascii ''.metadata.ts''))")
    case (Inl err)
    with True assms(1,2) show ?thesis
      by (simp add: loadPageModule_def resolve_metadata_def MODULE_CACHE_set_def io_defs)
  next
    case (Inr mm)
    with True assms(1,2) show ?thesis
      by (simp add: loadPageModule_def resolve_metadata_def MODULE_CACHE_set_def io_defs)
  qed
next
  case False
  with assms(3) have ok: "\<forall>err. m_getMetadata m \<noteq> Some (Inl err)" by simp
  show ?thesis
  proof (cases "m_getMetadata m")
    case None
    with False assms(1,2) show ?thesis
      by (simp add: loadPageModule_def resolve_metadata_def MODULE_CACHE_set_def io_defs)
  next
    case (Some r)
    with ok obtain v where "r = Inr v" by (cases r) auto
    with Some False assms(1,2) show ?thesis
      by (simp add: loadPageModule_def resolve_metadata_def MODULE_CACHE_set_def io_defs)
  qed
qed

lemma loadPageModule_cached:
  assumes "cache_ok w" and "loadPageModule e key w = (Inr cached, w1)"
  shows "MODULE_CACHE w1 key = Some cached \<and> cached < length (modules w1)"
proof (cases "MODULE_CACHE_hit e w key")
  case (Some r)
  with assms(2) have "cached = r" "w1 = w" by (simp_all add: loadPageModule_def)
  moreover from Some have "MODULE_CACHE w key = Some r"
    by (auto simp: MODULE_CACHE_hit_def split: option.splits if_splits)
  ultimately show ?thesis using assms(1) by (simp add: cache_ok_def)
next
  case None
  with assms(2) show ?thesis
    by (auto simp: loadPageModule_def resolve_metadata_def MODULE_CACHE_set_def io_defs
        split: sum.splits option.splits if_splits prod.splits)
qed


text \<open>
  C8, as the claim states it, fails when the page has a companion metadata file: a
  retrieval after the TTL has elapsed then calls the loader twice, once for the page
  module and once for the metadata file.
\<close>

theorem expired_retrieval_loads_companion_too:
  "MODULE_CACHE stale_world home_page_path = Some 0 \<and>
   \<not> within_ttl companion_env (now stale_world) (timestamp (modules stale_world ! 0)) \<and>
   filter is_load (trace (snd (loadPageModule companion_env home_page_path stale_world))) =
     [ViteLoad home_page_path,
      ViteLoad (replace home_page_path (ascii ''.page.tsx'') (ascii ''.metadata.ts''))]"
  by (simp add: stale_world_def fresh_world_def within_ttl_def CACHE_TTL_def companion_env_def
        home_env_def bare_env_def page_module_def loadPageModule_def MODULE_CACHE_hit_def
        resolve_metadata_def MODULE_CACHE_set_def io_defs)

text \<open>
  C8, amended. After any successful retrieval of a module artifact for a key, with
  reference \<open>cached\<close>: a retrieval at a time \<open>t\<close> inside the TTL window (always in production
  mode, less than 10000 ms after the entry's timestamp in development mode) returns the
  same reference and changes nothing, so the loader is not called; a retrieval after the
  window has elapsed, when the load succeeds, calls the loader exactly once for the
  artifact's path (and once more for the companion metadata file when that file
  exists), returns a new object, leaves every object stored before as it was, and makes
  the cache entry point to the new object.
\<close>

theorem module_cache_ttl:
  assumes "cache_ok w" and "loadPageModule e key w = (Inr cached, w1)"
  shows "(\<forall>t. production e \<or> t - timestamp (modules w1 ! cached) < 10000 \<longrightarrow>
            loadPageModule e key (w1\<lparr>now := t\<rparr>) = (Inr cached, w1\<lparr>now := t\<rparr>)) \<and>
         (\<forall>t m. \<not> production e \<and> 10000 \<le> t - timestamp (modules w1 ! cached) \<and>
            ssrLoadModule e key = Inr m \<and>
            (existsSync e (replace key (ascii ''.page.tsx'') (ascii ''.metadata.ts'')) \<or>
             (\<forall>err. m_getMetadata m \<noteq> Some (Inl err))) \<longrightarrow>
            (\<exists>w2. loadPageModule e key (w1\<lparr>now := t\<rparr>) = (Inr (length (modules w1)), w2) \<and>
                  length (modules w1) \<noteq> cached \<and>
                  take (length (modules w1)) (modules w2) = modules w1 \<and>
                  MODULE_CACHE w2 key = Some (length (modules w1)) \<and>
                  filter is_load (drop (length (trace w1)) (trace w2)) =
                    ViteLoad key #
                    (if existsSync e (replace key (ascii ''.page.tsx'') (ascii ''.metadata.ts''))
                     then [ViteLoad (replace key (ascii ''.page.tsx'') (ascii ''.metadata.ts''))]
                     else [])))"
proof -
  note c = loadPageModule_cached [OF assms]
  have hit: "\<And>t. production e \<or> t - timestamp (modules w1 ! cached) < 10000 \<Longrightarrow>
            loadPageModule e key (w1\<lparr>now := t\<rparr>) = (Inr cached, w1\<lparr>now := t\<rparr>)"
  proof -
    fix t
    assume "production e \<or> t - timestamp (modules w1 ! cached) < 10000"
    then have "within_ttl e (now (w1\<lparr>now := t\<rparr>)) (timestamp (modules (w1\<lparr>now := t\<rparr>) ! cached))"
      by (auto simp: within_ttl_def CACHE_TTL_def)
    moreover have "MODULE_CACHE (w1\<lparr>now := t\<rparr>) key = Some cached" using c by simp
    ultimately show "loadPageModule e key (w1\<lparr>now := t\<rparr>) = (Inr cached, w1\<lparr>now := t\<rparr>)"
      by (rule loadPageModule_hit [rotated])
  qed
  have miss: "\<And>t m. \<not> production e \<Longrightarrow> 10000 \<le> t - timestamp (modules w1 ! cached) \<Longrightarrow>
            ssrLoadModule e key = Inr m \<Longrightarrow>
            existsSync e (replace key (ascii ''.page.tsx'') (ascii ''.metadata.ts'')) \<or>
             (\<forall>err. m_getMetadata m \<noteq> Some (Inl err)) \<Longrightarrow>
            \<exists>w2. loadPageModule e key (w1\<lparr>now := t\<rparr>) = (Inr (length (modules w1)), w2) \<and>
                  length (modules w1) \<noteq> cached \<and>
                  take (length (modules w1)) (modules w2) = modules w1 \<and>
                  MODULE_CACHE w2 key = Some (length (modules w1)) \<and>
                  filter is_load (drop (length (trace w1)) (trace w2)) =
                    ViteLoad key #
                    (if existsSync e (replace key (ascii ''.page.tsx'') (ascii ''.metadata.ts''))
                     then [ViteLoad (replace key (ascii ''.page.tsx'') (ascii ''.metadata.ts''))]
                     else [])"
  proof -
    fix t m
    assume dev: "\<not> production e" and late: "10000 \<le> t - timestamp (modules w1 ! cached)"
      and m: "ssrLoadModule e key = Inr m"
      and md: "existsSync e (replace key (ascii ''.page.tsx'') (ascii ''.metadata.ts'')) \<or>
             (\<forall>err. m_getMetadata m \<noteq> Some (Inl err))"
    have "MODULE_CACHE_hit e (w1\<lparr>now := t\<rparr>) key = None"
      using c dev late by (simp add: MODULE_CACHE_hit_def within_ttl_def CACHE_TTL_def)
    from loadPageModule_reload [OF this m md] c
    show "\<exists>w2. loadPageModule e key (w1\<lparr>now := t\<rparr>) = (Inr (length (modules w1)), w2) \<and>
                  length (modules w1) \<noteq> cached \<and>
                  take (length (modules w1)) (modules w2) = modules w1 \<and>
                  MODULE_CACHE w2 key = Some (length (modules w1)) \<and>
                  filter is_load (drop (length (trace w1)) (trace w2)) =
                    ViteLoad key #
                    (if existsSync e (replace key (ascii ''.page.tsx'') (ascii ''.metadata.ts''))
                     then [ViteLoad (replace key (ascii ''.page.tsx'') (ascii ''.metadata.ts''))]
                     else [])"
      by auto
  qed
  from hit miss show ?thesis by blast
qed

theorem module_cache_ttl_witness:
  "cache_ok fresh_world \<and>
   fst (loadPageModule home_env home_page_path fresh_world) = Inr 0 \<and>
   timestamp (modules (snd (loadPageModule home_env home_page_path fresh_world)) ! 0) = 1005 \<and>
   fst (loadPageModule home_env home_page_path
          ((snd (loadPageModule home_env home_page_path fresh_world))\<lparr>now := 11004\<rparr>)) = Inr 0 \<and>
   fst (loadPageModule home_env home_page_path
          ((snd (loadPageModule home_env home_page_path fresh_world))\<lparr>now := 11005\<rparr>)) = Inr 1"
proof -
  have ok: "cache_ok fresh_world"
    by (simp add: cache_ok_def fresh_world_def)
  have "\<exists>W. loadPageModule home_env home_page_path fresh_world = (Inr 0, W) \<and>
          timestamp (modules W ! 0) = 1005 \<and> length (modules W) = 1"
    by (simp add: fresh_world_def home_env_def bare_env_def page_module_def loadPageModule_def
          MODULE_CACHE_hit_def resolve_metadata_def MODULE_CACHE_set_def io_defs)
  then obtain W where run: "loadPageModule home_env home_page_path fresh_world = (Inr 0, W)"
    and stamp: "timestamp (modules W ! 0) = 1005" and len: "length (modules W) = 1"
    by blast
  note t = module_cache_ttl [OF ok run]
  have dev: "\<not> production home_env"
    by (simp add: home_env_def bare_env_def)
  have load: "ssrLoadModule home_env home_page_path = Inr page_module"
    by (simp add: home_env_def bare_env_def)
  have md: "\<forall>err. m_getMetadata page_module \<noteq> Some (Inl err)"
    by (simp add: page_module_def)
  from t stamp have early: "loadPageModule home_env home_page_path (W\<lparr>now := 11004\<rparr>) =
      (Inr 0, W\<lparr>now := 11004\<rparr>)"
    by simp
  have pre: "\<not> production home_env \<and> 10000 \<le> 11005 - timestamp (modules W ! 0) \<and>
      ssrLoadModule home_env home_page_path = Inr page_module \<and>
      (existsSync home_env (replace home_page_path (ascii ''.page.tsx'') (ascii ''.metadata.ts'')) \<or>
       (\<forall>err. m_getMetadata page_module \<noteq> Some (Inl err)))"
    using dev load md stamp by simp
  from t [THEN conjunct2, rule_format, OF pre] len
  have "\<exists>w2. loadPageModule home_env home_page_path (W\<lparr>now := 11005\<rparr>) = (Inr 1, w2)"
    by auto
  then obtain w2 where late: "loadPageModule home_env home_page_path (W\<lparr>now := 11005\<rparr>) =
      (Inr 1, w2)" ..
  from ok run stamp early late show ?thesis by simp
qed

section \<open>Global state after a client navigation\<close>

lemma navigate_keeps_canonical_state:
  "NIST (navigate path response win) = NIST win \<and>
   ROUTE_PARAMS (navigate path response win) = ROUTE_PARAMS win \<and>
   QUERY_PARAMS (navigate path response win) = QUERY_PARAMS win \<and>
   PATHNAME (navigate path response win) = PATHNAME win"
  by (simp add: navigate_def fetchAndRenderPage_def
      split: fetch_result.splits option.splits prod.splits)

lemma first_payload_parsed:
  "JSON_parse first_payload =
     Some (JObj [(ascii ''props'', JObj []),
                 (ascii ''route'', JObj [(ascii ''pathname'', JStr (ascii ''/''))]),
                 (ascii ''page'', JStr (ascii ''a''))])"
  by code_simp

lemma nav_html_matches:
  "first_match props_match_here nav_html = Some (0x7B # 0x22 # 0x78 # 0x22 # ascii '':1}'')"
  "first_match page_name_match_here nav_html = Some (ascii ''b'')"
  by code_simp+

lemma nav_props_parsed:
  "JSON_parse (0x7B # 0x22 # 0x78 # 0x22 # ascii '':1}'') = Some (JObj [(ascii ''x'', JNum 1)])"
  by code_simp

lemma served_script_matches:
  "first_match props_match_here served_script = None"
  by code_simp

text \<open>
  C7. The bootstrap script of the first document publishes the payload in \<open>__NIST__\<close> and
  in the aliases alike. A client navigation to a document that carries the markers the
  router looks for assigns \<open>__INITIAL_PROPS__\<close> and \<open>__PAGE_NAME__\<close> only: afterwards the
  aliases name page \<open>b\<close> with its props, while \<open>__NIST__\<close> and the path alias still hold page
  \<open>a\<close>. In a document that writes the assignments as the server's own bootstrap script
  does, the router finds no marker and publishes nothing.
\<close>

theorem navigation_updates_aliases_only:
  "PAGE_NAME (bootstrap (Some first_payload) empty_window) = JStr (ascii ''a'') \<and>
   map_option h_page (NIST (bootstrap (Some first_payload) empty_window)) =
     Some (JStr (ascii ''a'')) \<and>
   PAGE_NAME (navigate (ascii ''/b'') (Response True nav_html)
                (bootstrap (Some first_payload) empty_window)) = JStr (ascii ''b'') \<and>
   INITIAL_PROPS (navigate (ascii ''/b'') (Response True nav_html)
                    (bootstrap (Some first_payload) empty_window)) =
     JObj [(ascii ''x'', JNum 1)] \<and>
   map_option h_page (NIST (navigate (ascii ''/b'') (Response True nav_html)
                              (bootstrap (Some first_payload) empty_window))) =
     Some (JStr (ascii ''a'')) \<and>
   map_option h_props (NIST (navigate (ascii ''/b'') (Response True nav_html)
                               (bootstrap (Some first_payload) empty_window))) =
     Some (JObj []) \<and>
   PATHNAME (navigate (ascii ''/b'') (Response True nav_html)
               (bootstrap (Some first_payload) empty_window)) = JStr (ascii ''/'') \<and>
   navigate (ascii ''/b'') (Response True served_script)
     (bootstrap (Some first_payload) empty_window) =
     (bootstrap (Some first_payload) empty_window)\<lparr>location := ascii ''/b''\<rparr>"
proof -
  have first: "bootstrap (Some first_payload) empty_window =
      empty_window\<lparr>NIST := Some \<lparr>h_props = JObj [],
                                   h_route = JObj [(ascii ''pathname'', JStr (ascii ''/''))],
                                   h_page = JStr (ascii ''a''), hydrated = False\<rparr>,
                     INITIAL_PROPS := JObj [], PAGE_NAME := JStr (ascii ''a''),
                     ROUTE_PARAMS := JUndefined, QUERY_PARAMS := JUndefined,
                     PATHNAME := JStr (ascii ''/'')\<rparr>"
    by (simp add: bootstrap_def first_payload_parsed nullish_def Let_def)
       (simp add: ascii_def first_payload_def)
  have loc: "(ascii ''/b'' = ascii ''/'') = False"
    by (simp add: ascii_def)
  show ?thesis
    unfolding first
    by (simp add: navigate_def fetchAndRenderPage_def nav_html_matches
          nav_props_parsed served_script_matches empty_window_def loc)
qed

theorem navigation_updates_aliases_only_witness:
  "PAGE_NAME (navigate (ascii ''/b'') (Response True nav_html)
                (bootstrap (Some first_payload) empty_window)) = JStr (ascii ''b'') \<and>
   map_option h_page (NIST (navigate (ascii ''/b'') (Response True nav_html)
                              (bootstrap (Some first_payload) empty_window))) =
     Some (JStr (ascii ''a''))"
  using navigation_updates_aliases_only by blast

section \<open>Decimal digits\<close>

lemma digit_unat: "k < 10 \<Longrightarrow> unat (0x30 + of_nat k :: cu) = 48 + k"
proof -
  assume k: "k < 10"
  have "(0x30 + of_nat k :: cu) = of_nat (48 + k)" by simp
  then have "unat (0x30 + of_nat k :: cu) = (48 + k) mod 65536"
    by (simp only: unat_of_nat) simp
  with k show ?thesis by simp
qed

lemma digits_value_snoc: "digits_value (ds @ [d]) = 10 * digits_value ds + (unat d - 0x30)"
  by (simp add: digits_value_def)

lemma digits_value_digits_of: "digits_value (digits_of n) = n"
proof (induction n rule: digits_of.induct)
  case (1 n)
  show ?case
  proof (cases "n < 10")
    case True
    then have "digits_of n = [0x30 + of_nat n]" by (simp add: digits_of.simps)
    with True digits_value_snoc [of "[]" "0x30 + of_nat n"] show ?thesis
      by (simp add: digit_unat digits_value_def)
  next
    case False
    then have "digits_of n = digits_of (n div 10) @ [0x30 + of_nat (n mod 10)]"
      by (subst digits_of.simps) simp
    with False 1 show ?thesis by (simp add: digits_value_snoc digit_unat)
  qed
qed



section \<open>Sanitizing the hydration props\<close>



section \<open>Sanitizing the hydration props\<close>




lemma with_fields_twice [simp]: "with_fields (with_fields ob fs) gs = with_fields ob gs"
  by (cases ob) simp_all

lemma with_fields_fields [simp]: "with_fields ob (fields ob) = ob"
  by (cases ob) simp_all

lemma fields_copy [simp]: "fields (with_fields ob (fields ob)) = fields ob"
  by simp





lemma values_of_array [simp]: "map snd (fields (SArr xs)) = xs"
  by simp






lemma view_ref:
  "view (Suc n) h (SRef a) =
     (case h ! a of
        SArr xs \<Rightarrow> JArr (map (view n h) (map snd (fields (h ! a))))
      | SObj fs \<Rightarrow> JObj (map (\<lambda>(k, v). (k, view n h v)) (fields (h ! a))))"
  by (cases "h ! a") simp_all
























section \<open>Hydration round trip\<close>

subsection \<open>Strings\<close>

lemma hex4_digits:
  assumes "n < (65536::nat)"
  shows "n div 4096 mod 16 * 4096 + n div 256 mod 16 * 256 + n div 16 mod 16 * 16 + n mod 16 = n"
proof -
  define q1 q2 q3 where "q1 = n div 16" and "q2 = q1 div 16" and "q3 = q2 div 16"
  define r0 r1 r2 where "r0 = n mod 16" and "r1 = q1 mod 16" and "r2 = q2 mod 16"
  have e0: "n = 16 * q1 + r0" and e1: "q1 = 16 * q2 + r1" and e2: "q2 = 16 * q3 + r2"
    by (simp_all add: q1_def q2_def q3_def r0_def r1_def r2_def)
  have d2: "n div 256 = q2" and d3: "n div 4096 = q3"
    by (simp_all add: q1_def q2_def q3_def div_mult2_eq)
  have "q3 < 16"
    using assms unfolding d3 [symmetric] by (simp add: less_mult_imp_div_less)
  then have m3: "q3 mod 16 = q3"
    by simp
  have "q3 * 4096 + r2 * 256 + r1 * 16 + r0 = n"
    using e0 e1 e2 by linarith
  then show ?thesis
    by (simp only: d2 d3 m3 flip: q1_def r0_def r1_def r2_def)
qed

lemma hex4_value:
  "of_nat (unat c div 4096 mod 16 * 4096 + unat c div 256 mod 16 * 256 +
           unat c div 16 mod 16 * 16 + unat c mod 16) = (c :: cu)"
proof -
  have "unat c < 65536"
    using unsigned_less [of c] by simp
  then have e: "unat c div 4096 mod 16 * 4096 + unat c div 256 mod 16 * 256 +
           unat c div 16 mod 16 * 16 + unat c mod 16 = unat c"
    by (rule hex4_digits)
  show ?thesis
    unfolding e by simp
qed

lemma hexdigit_unat:
  assumes "d < 16"
  shows "unat (hexdigit d) = (if d < 10 then 48 + d else 87 + d)"
proof (cases "d < 10")
  case True
  have "(0x30 + of_nat d :: cu) = of_nat (48 + d)" by simp
  then have "unat (0x30 + of_nat d :: cu) = (48 + d) mod 65536"
    by (simp only: unat_of_nat) simp
  with True show ?thesis by (simp add: hexdigit_def)
next
  case False
  have "(0x57 + of_nat d :: cu) = of_nat (87 + d)" by simp
  then have "unat (0x57 + of_nat d :: cu) = (87 + d) mod 65536"
    by (simp only: unat_of_nat) simp
  with False assms show ?thesis by (simp add: hexdigit_def)
qed

lemma hex_value_unat:
  "hex_value c =
     (if 48 \<le> unat c \<and> unat c \<le> 57 then Some (unat c - 48)
      else if 97 \<le> unat c \<and> unat c \<le> 102 then Some (unat c - 87)
      else if 65 \<le> unat c \<and> unat c \<le> 70 then Some (unat c - 55)
      else None)"
  by (simp add: hex_value_def word_le_nat_alt)

lemma hex_value_hexdigit: "d < 16 \<Longrightarrow> hex_value (hexdigit d) = Some d"
  by (simp add: hex_value_unat hexdigit_unat)

lemma script_escape_plain:
  "unat c \<noteq> 60 \<Longrightarrow> unat c \<noteq> 62 \<Longrightarrow> unat c \<noteq> 47 \<Longrightarrow> unat c \<noteq> 8232 \<Longrightarrow> unat c \<noteq> 8233 \<Longrightarrow>
   script_escape c = [c]"
  by (auto simp: script_escape_def)

lemma script_escape_hexdigit: "d < 16 \<Longrightarrow> script_escape (hexdigit d) = [hexdigit d]"
  by (rule script_escape_plain) (simp_all add: hexdigit_unat)

lemma parse_hex4_unicode_escape:
  "parse_hex4 [hexdigit (unat c div 4096 mod 16), hexdigit (unat c div 256 mod 16),
      hexdigit (unat c div 16 mod 16), hexdigit (unat c mod 16)] = Some c"
  by (simp add: hex_value_hexdigit hex4_value del: of_nat_add of_nat_mult)

lemma script_escape_backslash_u: "script_escape 0x5C = [0x5C]" "script_escape 0x75 = [0x75]"
  by (simp_all add: script_escape_def)

lemma escaped_unicode_escape:
  "concat (map script_escape (unicode_escape c)) = unicode_escape c"
  by (simp add: unicode_escape_def script_escape_hexdigit script_escape_backslash_u)

lemma parse_unicode_escape:
  "parse_string_body (unicode_escape c @ tail) = prepend c (parse_string_body tail)"
  by (simp add: unicode_escape_def parse_hex4_unicode_escape del: parse_hex4.simps)


lemma parse_escaped_unit:
  "parse_string_body (concat (map script_escape (quote_unit c)) @ tail) =
     prepend c (parse_string_body tail)"
proof (cases "c = 0x08 \<or> c = 0x09 \<or> c = 0x0A \<or> c = 0x0C \<or> c = 0x0D \<or> c = 0x22 \<or> c = 0x5C")
  case True
  then show ?thesis
    by (auto simp: quote_unit_def script_escape_def simple_escape_def)
next
  case long: False
  show ?thesis
  proof (cases "c < 0x20 \<or> is_high_surrogate c \<or> is_low_surrogate c")
    case True
    with long have "quote_unit c = unicode_escape c" by (simp add: quote_unit_def)
    then show ?thesis
      by (simp only: escaped_unicode_escape parse_unicode_escape)
  next
    case False
    with long have q: "quote_unit c = [c]" by (simp add: quote_unit_def)
    show ?thesis
    proof (cases "c = 0x3C \<or> c = 0x3E \<or> c = 0x2F \<or> c = 0x2028 \<or> c = 0x2029")
      case True
      then show ?thesis
        unfolding q by (auto simp: script_escape_def ascii_def hex_value_def)
    next
      case plain: False
      then have "script_escape c = [c]" by (simp add: script_escape_def)
      with long False show ?thesis unfolding q by simp
    qed
  qed
qed

lemma surrogate_plain:
  assumes "is_high_surrogate c \<or> is_low_surrogate c"
  shows "script_escape c = [c] \<and> c \<noteq> 0x22 \<and> c \<noteq> 0x5C \<and> \<not> c < 0x20"
proof -
  from assms have "55296 \<le> unat c"
    by (auto simp: is_high_surrogate_def is_low_surrogate_def word_le_nat_alt)
  then have "script_escape c = [c]" by (intro script_escape_plain) simp_all
  moreover from \<open>55296 \<le> unat c\<close> have "c \<noteq> 0x22" "c \<noteq> 0x5C" "\<not> c < 0x20"
    by (auto simp: word_less_nat_alt)
  ultimately show ?thesis by simp
qed

lemma parse_escaped_units:
  "parse_string_body (concat (map script_escape (quote_units s)) @ 0x22 # rest) = Some (s, rest)"
proof (induction s rule: quote_units.induct)
  case 1
  show ?case by simp
next
  case (2 c)
  have "parse_string_body (concat (map script_escape (quote_unit c)) @ 0x22 # rest) =
          prepend c (parse_string_body (0x22 # rest))"
    by (rule parse_escaped_unit)
  then show ?case by (simp add: prepend_def)
next
  case (3 c d cs)
  show ?case
  proof (cases "is_high_surrogate c \<and> is_low_surrogate d")
    case True
    with surrogate_plain [of c] surrogate_plain [of d] 3(1) [OF True] show ?thesis
      by (simp add: prepend_def)
  next
    case False
    have "parse_string_body
            (concat (map script_escape (quote_unit c)) @
             (concat (map script_escape (quote_units (d # cs))) @ 0x22 # rest)) =
          prepend c (parse_string_body
             (concat (map script_escape (quote_units (d # cs))) @ 0x22 # rest))"
      by (rule parse_escaped_unit)
    moreover have "quote_units (c # d # cs) = quote_unit c @ quote_units (d # cs)"
      using False by auto
    ultimately show ?thesis using 3(2) [OF False] by (simp add: prepend_def)
  qed
qed

lemma clean_script_escape:
  "x \<in> set (script_escape c) \<Longrightarrow>
   x \<noteq> 0x3C \<and> x \<noteq> 0x3E \<and> x \<noteq> 0x2F \<and> x \<noteq> 0x2028 \<and> x \<noteq> 0x2029"
  by (auto simp: script_escape_def ascii_def split: if_splits)

subsection \<open>Numbers\<close>

declare digits_of.simps [simp del]

lemma escape_plain_all:
  "(\<And>c. c \<in> set t \<Longrightarrow> script_escape c = [c]) \<Longrightarrow> concat (map script_escape t) = t"
  by (induction t) simp_all

lemma digits_of_units: "c \<in> set (digits_of n) \<Longrightarrow> 48 \<le> unat c \<and> unat c \<le> 57"
proof (induction n rule: digits_of.induct)
  case (1 n)
  show ?case
  proof (cases "n < 10")
    case True
    then have "digits_of n = [0x30 + of_nat n]" by (simp add: digits_of.simps)
    with 1(2) True show ?thesis by (simp add: digit_unat)
  next
    case False
    then have "digits_of n = digits_of (n div 10) @ [0x30 + of_nat (n mod 10)]"
      by (subst digits_of.simps) simp
    with 1(2) have "c \<in> set (digits_of (n div 10)) \<or> c = 0x30 + of_nat (n mod 10)" by auto
    then show ?thesis
    proof
      assume "c \<in> set (digits_of (n div 10))"
      with False show ?thesis by (intro 1(1)) simp_all
    next
      assume "c = 0x30 + of_nat (n mod 10)"
      then show ?thesis by (simp add: digit_unat)
    qed
  qed
qed

lemma digit_unit:
  assumes "48 \<le> unat c" and "unat c \<le> 57"
  shows "is_digit c" and "script_escape c = [c]" and "\<not> is_ws c" and "c \<noteq> 0x2D"
    and "c \<noteq> 0x7B" and "c \<noteq> 0x5B" and "c \<noteq> 0x22" and "c \<noteq> 0x5D" and "c \<noteq> 0x6E"
    and "c \<noteq> 0x74" and "c \<noteq> 0x66"
  using assms by (auto simp: is_digit_def word_le_nat_alt is_ws_def intro: script_escape_plain)

lemma digits_of_nonempty: "digits_of n \<noteq> []"
  by (subst digits_of.simps) simp

lemma hd_digits_of: "(hd (digits_of n) = 0x30) = (n = 0)"
proof (induction n rule: digits_of.induct)
  case (1 n)
  show ?case
  proof (cases "n < 10")
    case True
    then have d: "digits_of n = [0x30 + of_nat n]" by (simp add: digits_of.simps)
    have "(0x30 + of_nat n = (0x30 :: cu)) = (unat (0x30 + of_nat n :: cu) = unat (0x30 :: cu))"
      by (simp only: word_unat_eq_iff)
    with True show ?thesis unfolding d by (simp add: digit_unat)
  next
    case False
    then have "digits_of n = digits_of (n div 10) @ [0x30 + of_nat (n mod 10)]"
      by (subst digits_of.simps) simp
    then have "hd (digits_of n) = hd (digits_of (n div 10))"
      by (simp add: digits_of_nonempty)
    with False 1 show ?thesis by simp
  qed
qed

lemma digits_of_zero: "digits_of 0 = [0x30]"
  by (simp add: digits_of.simps)

lemma escaped_digits: "concat (map script_escape (digits_of n)) = digits_of n"
  by (rule escape_plain_all) (auto dest!: digits_of_units intro: digit_unit(2))

lemma parse_digits_digits_of:
  assumes "rest = [] \<or> \<not> is_digit (hd rest)"
  shows "parse_digits (digits_of n @ rest) = Some (n, rest)"
proof -
  obtain c cs where cs: "digits_of n = c # cs"
    using digits_of_nonempty [of n] by (cases "digits_of n") simp_all
  have all: "\<And>x. x \<in> set (digits_of n) \<Longrightarrow> is_digit x"
    by (auto dest!: digits_of_units intro: digit_unit(1))
  have stop: "takeWhile is_digit rest = []" "dropWhile is_digit rest = rest"
    using assms by (cases rest; simp)+
  show ?thesis
  proof (cases "n = 0")
    case True
    then show ?thesis by (simp add: digits_of_zero parse_digits_def)
  next
    case False
    with hd_digits_of [of n] cs have "c \<noteq> 0x30" by simp
    moreover have "is_digit c" using all cs by simp
    moreover have "takeWhile is_digit (digits_of n @ rest) = digits_of n"
      using all stop by (simp add: takeWhile_append2)
    moreover have "dropWhile is_digit (digits_of n @ rest) = rest"
      using all stop by (simp add: dropWhile_append2)
    ultimately show ?thesis
      unfolding parse_digits_def cs [symmetric]
      by (simp add: cs digits_value_digits_of [of n, unfolded cs])
  qed
qed

lemma parse_number_number_to_string:
  assumes "rest = [] \<or> hd rest = 0x2C \<or> hd rest = 0x5D \<or> hd rest = 0x7D"
  shows "parse_number (number_to_string n @ rest) = Some (JNum n, rest)"
proof -
  from assms have stop: "rest = [] \<or> \<not> is_digit (hd rest)"
    by (auto simp: is_digit_def)
  from assms have tail: "(case rest of [] \<Rightarrow> Some (JNum n, rest)
           | c # cs \<Rightarrow> if c = 0x2E \<or> c = 0x65 \<or> c = 0x45 then None else Some (JNum n, rest)) =
        Some (JNum n, rest)"
    by (cases rest) auto
  show ?thesis
  proof (cases "n < 0")
    case True
    then have "number_to_string n = 0x2D # digits_of (nat (- n))"
      by (simp add: number_to_string_def)
    moreover have "- int (nat (- n)) = n" using True by simp
    ultimately show ?thesis
      using parse_digits_digits_of [OF stop, of "nat (- n)"] tail
      by (simp add: parse_number_def)
  next
    case False
    obtain c cs where cs: "digits_of (nat n) = c # cs"
      using digits_of_nonempty [of "nat n"] by (cases "digits_of (nat n)") simp_all
    then have "c \<in> set (digits_of (nat n))" by simp
    then have "c \<noteq> 0x2D" by (auto dest!: digits_of_units intro: digit_unit(4))
    moreover have "number_to_string n = digits_of (nat n)"
      using False by (simp add: number_to_string_def)
    moreover have "int (nat n) = n" using False by simp
    ultimately show ?thesis
      using parse_digits_digits_of [OF stop, of "nat n"] tail cs
      by (simp add: parse_number_def)
  qed
qed

subsection \<open>Arrays and objects\<close>

lemma set_prop_absent: "k \<notin> fst ` set fs \<Longrightarrow> set_prop fs k v = fs @ [(k, v)]"
  by (induction fs) auto

lemma assign_all_distinct:
  "distinct (map fst (tgt @ src)) \<Longrightarrow>
   fold (\<lambda>(k, v) acc. set_prop acc k v) src tgt = tgt @ src"
proof (induction src arbitrary: tgt)
  case Nil
  show ?case by simp
next
  case (Cons kv src)
  obtain k v where kv: "kv = (k, v)" by (cases kv)
  from Cons.prems kv have "k \<notin> fst ` set tgt" by auto
  then have "set_prop tgt k v = tgt @ [(k, v)]" by (rule set_prop_absent)
  moreover from Cons.prems kv have "distinct (map fst ((tgt @ [(k, v)]) @ src))" by simp
  then have "fold (\<lambda>(k, v) acc. set_prop acc k v) src (tgt @ [(k, v)]) = (tgt @ [(k, v)]) @ src"
    by (rule Cons.IH)
  ultimately show ?case using kv by simp
qed

lemma spread_distinct: "distinct (map fst fs) \<Longrightarrow> spread [] (JObj fs) = fs"
  using assign_all_distinct [of "[]" fs] by (simp add: spread_def)

lemma skip_ws_token: "\<not> is_ws c \<Longrightarrow> skip_ws (c # cs) = c # cs"
  by (simp add: skip_ws_def)

lemma pv_array_empty: "parse_value (Suc n) (0x5B # 0x5D # rest) = Some (JArr [], rest)"
  by (simp add: skip_ws_def is_ws_def)

lemma pv_array:
  "\<not> is_ws d \<Longrightarrow> d \<noteq> 0x5D \<Longrightarrow>
   parse_value (Suc n) (0x5B # d # ds) =
     (case parse_elements n (d # ds) of
        None \<Rightarrow> None
      | Some (xs, rest) \<Rightarrow> Some (JArr xs, rest))"
  by (simp add: skip_ws_def is_ws_def del: parse_elements.simps)

lemma pv_object_empty: "parse_value (Suc n) (0x7B # 0x7D # rest) = Some (JObj [], rest)"
  by (simp add: skip_ws_def is_ws_def)

lemma pv_object:
  "parse_value (Suc n) (0x7B # 0x22 # ds) =
     (case parse_members n (0x22 # ds) of
        None \<Rightarrow> None
      | Some (fs, rest) \<Rightarrow> Some (JObj (property_order (spread [] (JObj fs))), rest))"
  by (simp add: skip_ws_def is_ws_def del: parse_members.simps)

lemma pv_string:
  "parse_value (Suc n) (0x22 # cs) =
     (case parse_string_body cs of
        None \<Rightarrow> None
      | Some (str, rest) \<Rightarrow> Some (JStr str, rest))"
  by (simp add: skip_ws_def is_ws_def del: parse_string_body.simps)

lemma pv_literals:
  "parse_value (Suc n) (ascii ''null'' @ rest) = Some (JNull, rest)"
  "parse_value (Suc n) (ascii ''true'' @ rest) = Some (JBool True, rest)"
  "parse_value (Suc n) (ascii ''false'' @ rest) = Some (JBool False, rest)"
  by (simp_all add: skip_ws_def is_ws_def startsWith_def ascii_def)

lemma pv_number:
  assumes "c = 0x2D \<or> 48 \<le> unat c \<and> unat c \<le> 57"
  shows "parse_value (Suc n) (c # cs) = parse_number (c # cs)"
proof -
  from assms have "\<not> is_ws c" "c \<noteq> 0x7B" "c \<noteq> 0x5B" "c \<noteq> 0x22" "c \<noteq> 0x6E" "c \<noteq> 0x74"
    "c \<noteq> 0x66" "c = 0x2D \<or> is_digit c"
    using digit_unit [of c] by (auto simp: is_ws_def)
  then show ?thesis
    by (simp add: skip_ws_def startsWith_def ascii_def)
qed

lemma escaped_literals:
  "concat (map script_escape (ascii ''null'')) = ascii ''null''"
  "concat (map script_escape (ascii ''true'')) = ascii ''true''"
  "concat (map script_escape (ascii ''false'')) = ascii ''false''"
  by (simp_all add: ascii_def script_escape_def)

lemma escaped_number: "concat (map script_escape (number_to_string n)) = number_to_string n"
proof -
  have "script_escape 0x2D = [0x2D]" by (simp add: script_escape_def)
  then show ?thesis by (simp add: number_to_string_def escaped_digits)
qed

lemma number_starts:
  "\<exists>c cs. number_to_string n = c # cs \<and> (c = 0x2D \<or> 48 \<le> unat c \<and> unat c \<le> 57)"
proof (cases "n < 0")
  case True
  then show ?thesis by (simp add: number_to_string_def)
next
  case False
  obtain c cs where cs: "digits_of (nat n) = c # cs"
    using digits_of_nonempty [of "nat n"] by (cases "digits_of (nat n)") simp_all
  then have "c \<in> set (digits_of (nat n))" by simp
  then have "48 \<le> unat c \<and> unat c \<le> 57" by (rule digits_of_units)
  with cs False show ?thesis by (simp add: number_to_string_def)
qed

lemma escaped_quoted:
  "concat (map script_escape (QuoteJSONString s)) =
     0x22 # concat (map script_escape (quote_units s)) @ [0x22]"
  by (simp add: QuoteJSONString_def script_escape_def)

lemma join_with_cons:
  "join_with sep (x # xs) = (if xs = [] then x else x @ sep # join_with sep xs)"
  by (cases xs) simp_all

lemma stringify_total:
  "json_rep v \<Longrightarrow> \<exists>t. stringify_value v = Some t"
  "json_rep_elements xs \<Longrightarrow> stringify_elements xs = map (\<lambda>x. the (stringify_value x)) xs"
  "json_rep_members fs \<Longrightarrow>
     stringify_members fs =
       map (\<lambda>(k, v). QuoteJSONString k @ 0x3A # the (stringify_value v)) fs"
  by (induction v and xs and fs rule: json_rep_json_rep_elements_json_rep_members.induct) auto

lemma value_starts:
  assumes "json_rep v"
  shows "\<exists>c cs. concat (map script_escape (the (stringify_value v))) = c # cs \<and>
                 \<not> is_ws c \<and> c \<noteq> 0x5D \<and> c \<noteq> 0x7D"
proof (cases v)
  case (JNum n)
  obtain c cs where "number_to_string n = c # cs" and "c = 0x2D \<or> 48 \<le> unat c \<and> unat c \<le> 57"
    using number_starts [of n] by blast
  then have "number_to_string n = c # cs \<and> \<not> is_ws c \<and> c \<noteq> 0x5D \<and> c \<noteq> 0x7D"
    using digit_unit [of c] by (auto simp: is_ws_def word_le_nat_alt)
  moreover have "concat (map script_escape (the (stringify_value v))) = number_to_string n"
    using JNum by (simp add: escaped_number)
  ultimately show ?thesis by (simp only:) blast
next
  case (JBool b)
  then show ?thesis by (cases b) (simp_all add: escaped_literals, simp_all add: ascii_def is_ws_def)
qed (use assms in \<open>simp_all add: escaped_literals escaped_quoted script_escape_def,
       simp_all add: ascii_def is_ws_def\<close>)


lemma escaped_brackets:
  "script_escape 0x5B = [0x5B]" "script_escape 0x5D = [0x5D]" "script_escape 0x7B = [0x7B]"
  "script_escape 0x7D = [0x7D]" "script_escape 0x2C = [0x2C]" "script_escape 0x3A = [0x3A]"
  by (simp_all add: script_escape_def)

lemma separators_not_ws: "\<not> is_ws 0x5D" "\<not> is_ws 0x7D" "\<not> is_ws 0x2C" "\<not> is_ws 0x3A" "\<not> is_ws 0x22"
  by (simp_all add: is_ws_def)

lemma round_trip:
  "json_rep v \<Longrightarrow> rest = [] \<or> hd rest = 0x2C \<or> hd rest = 0x5D \<or> hd rest = 0x7D \<Longrightarrow>
     length (concat (map script_escape (the (stringify_value v)))) < n \<Longrightarrow>
     parse_value n (concat (map script_escape (the (stringify_value v))) @ rest) = Some (v, rest)"
  "json_rep_elements xs \<Longrightarrow> xs \<noteq> [] \<Longrightarrow>
     Suc (length (concat (map script_escape (join_with 0x2C (stringify_elements xs))))) < n \<Longrightarrow>
     parse_elements n
       (concat (map script_escape (join_with 0x2C (stringify_elements xs))) @ 0x5D # rest) =
     Some (xs, rest)"
  "json_rep_members fs \<Longrightarrow> fs \<noteq> [] \<Longrightarrow>
     Suc (length (concat (map script_escape (join_with 0x2C (stringify_members fs))))) < n \<Longrightarrow>
     parse_members n
       (concat (map script_escape (join_with 0x2C (stringify_members fs))) @ 0x7D # rest) =
     Some (fs, rest)"
proof (induction v and xs and fs arbitrary: rest n and rest n and rest n
    rule: json_rep_json_rep_elements_json_rep_members.induct)
  case 1
  then show ?case by simp
next
  case (2 f)
  then show ?case by simp
next
  case 3
  from 3(3) obtain n' where "n = Suc n'" by (cases n) simp_all
  then show ?case by (simp add: escaped_literals pv_literals del: parse_value.simps)
next
  case (4 b)
  from 4(3) obtain n' where "n = Suc n'" by (cases n) simp_all
  then show ?case by (cases b) (simp_all add: escaped_literals pv_literals del: parse_value.simps)
next
  case (5 i)
  from 5(3) obtain n' where n: "n = Suc n'" by (cases n) simp_all
  obtain c cs where c: "number_to_string i = c # cs" "c = 0x2D \<or> 48 \<le> unat c \<and> unat c \<le> 57"
    using number_starts [of i] by blast
  have "parse_value (Suc n') (c # (cs @ rest)) = parse_number (c # (cs @ rest))"
    using c(2) by (rule pv_number)
  then have "parse_value n (number_to_string i @ rest) = parse_number (number_to_string i @ rest)"
    by (simp only: n c(1) append_Cons)
  also have "\<dots> = Some (JNum i, rest)"
    using 5(2) by (rule parse_number_number_to_string)
  finally show ?case by (simp add: escaped_number del: parse_value.simps)
next
  case (6 s)
  from 6(3) obtain n' where n: "n = Suc n'" by (cases n) simp_all
  show ?case
    by (simp add: n escaped_quoted pv_string parse_escaped_units del: parse_value.simps)
next
  case (7 xs)
  from 7(4) obtain n' where n: "n = Suc n'" by (cases n) simp_all
  have shape: "concat (map script_escape (the (stringify_value (JArr xs)))) =
        0x5B # concat (map script_escape (join_with 0x2C (stringify_elements xs))) @ [0x5D]"
    by (simp add: escaped_brackets)
  show ?case
  proof (cases "xs = []")
    case True
    then show ?thesis by (simp add: n escaped_brackets pv_array_empty del: parse_value.simps)
  next
    case False
    from 7(2) have rep: "json_rep_elements xs" by simp
    from False obtain x xs' where xs: "xs = x # xs'" by (cases xs) simp_all
    with rep have "json_rep x" by simp
    from value_starts [OF this] obtain d ds where
      d: "concat (map script_escape (the (stringify_value x))) = d # ds" "\<not> is_ws d" "d \<noteq> 0x5D"
      by blast
    have "stringify_elements xs = the (stringify_value x) # stringify_elements xs'"
      using stringify_total(1) [OF \<open>json_rep x\<close>] xs by auto
    then obtain ds' where
      start: "concat (map script_escape (join_with 0x2C (stringify_elements xs))) = d # ds'"
      using d(1) by (cases "stringify_elements xs'") auto
    from 7(4) have fuel: "Suc (length (concat (map script_escape
           (join_with 0x2C (stringify_elements xs))))) < n'"
      unfolding shape n by simp
    have "parse_elements n'
       (concat (map script_escape (join_with 0x2C (stringify_elements xs))) @ 0x5D # rest) =
       Some (xs, rest)"
      using rep False fuel by (rule 7(1))
    then have "parse_value (Suc n') (0x5B # d # (ds' @ 0x5D # rest)) = Some (JArr xs, rest)"
      unfolding start using d(2,3) by (simp add: pv_array del: parse_value.simps parse_elements.simps)
    then show ?thesis unfolding shape n start by simp
  qed
next
  case (8 fs)
  from 8(4) obtain n' where n: "n = Suc n'" by (cases n) simp_all
  have shape: "concat (map script_escape (the (stringify_value (JObj fs)))) =
        0x7B # concat (map script_escape (join_with 0x2C (stringify_members fs))) @ [0x7D]"
    by (simp add: escaped_brackets)
  from 8(2) have rep: "json_rep_members fs" and once: "distinct (map fst fs)"
    and order: "property_order fs = fs" by simp_all
  show ?case
  proof (cases "fs = []")
    case True
    then show ?thesis by (simp add: n escaped_brackets pv_object_empty del: parse_value.simps)
  next
    case False
    then obtain k v fs' where fs: "fs = (k, v) # fs'" by (cases fs) auto
    with rep have "json_rep v" by simp
    have "stringify_members fs =
            (QuoteJSONString k @ 0x3A # the (stringify_value v)) # stringify_members fs'"
      using stringify_total(1) [OF \<open>json_rep v\<close>] fs by auto
    then obtain ds' where
      start: "concat (map script_escape (join_with 0x2C (stringify_members fs))) = 0x22 # ds'"
      by (cases "stringify_members fs'") (auto simp: escaped_quoted)
    from 8(4) have fuel: "Suc (length (concat (map script_escape
           (join_with 0x2C (stringify_members fs))))) < n'"
      unfolding shape n by simp
    have "parse_members n'
       (concat (map script_escape (join_with 0x2C (stringify_members fs))) @ 0x7D # rest) =
       Some (fs, rest)"
      using rep False fuel by (rule 8(1))
    then have "parse_value (Suc n') (0x7B # 0x22 # (ds' @ 0x7D # rest)) =
        Some (JObj (property_order (spread [] (JObj fs))), rest)"
      unfolding start by (simp add: pv_object del: parse_value.simps parse_members.simps)
    then show ?thesis
      unfolding shape n start by (simp add: spread_distinct [OF once] order del: parse_value.simps)
  qed
next
  case 9
  then show ?case by simp
next
  case (10 x xs)
  from 10(5) obtain n' where n: "n = Suc n'" by (cases n) simp_all
  from 10(3) have rx: "json_rep x" and rxs: "json_rep_elements xs" by simp_all
  define tx where "tx = concat (map script_escape (the (stringify_value x)))"
  define txs where "txs = concat (map script_escape (join_with 0x2C (stringify_elements xs)))"
  have elems: "stringify_elements (x # xs) = the (stringify_value x) # stringify_elements xs"
    using stringify_total(1) [OF rx] by auto
  have empty: "(stringify_elements xs = []) = (xs = [])"
    by (cases xs) simp_all
  show ?case
  proof (cases "xs = []")
    case True
    then have shape: "concat (map script_escape (join_with 0x2C (stringify_elements (x # xs)))) = tx"
      by (subst elems) (simp add: tx_def)
    from 10(5) have "length tx < n'" unfolding shape n by simp
    then have "parse_value n' (tx @ 0x5D # rest) = Some (x, 0x5D # rest)"
      unfolding tx_def using rx by (intro 10(1)) simp_all
    then show ?thesis
      unfolding shape n using True by (simp add: skip_ws_token separators_not_ws)
  next
    case False
    then have shape: "concat (map script_escape (join_with 0x2C (stringify_elements (x # xs)))) =
        tx @ 0x2C # txs"
      by (subst elems) (simp add: join_with_cons empty tx_def txs_def escaped_brackets)
    from 10(5) have f1: "length tx < n'" and f2: "Suc (length txs) < n'"
      unfolding shape n by simp_all
    have "parse_value n' (tx @ 0x2C # txs @ 0x5D # rest) = Some (x, 0x2C # txs @ 0x5D # rest)"
      unfolding tx_def using rx f1 [unfolded tx_def] by (intro 10(1)) simp_all
    moreover have "parse_elements n' (txs @ 0x5D # rest) = Some (xs, rest)"
      unfolding txs_def using rxs False f2 [unfolded txs_def] by (rule 10(2))
    ultimately show ?thesis
      unfolding shape n by (simp add: skip_ws_token separators_not_ws)
  qed
next
  case 11
  then show ?case by simp
next
  case (12 k v fs)
  from 12(5) obtain n' where n: "n = Suc n'" by (cases n) simp_all
  from 12(3) have rv: "json_rep v" and rfs: "json_rep_members fs" by simp_all
  define tk where "tk = concat (map script_escape (quote_units k))"
  define tv where "tv = concat (map script_escape (the (stringify_value v)))"
  define tfs where "tfs = concat (map script_escape (join_with 0x2C (stringify_members fs)))"
  have membs: "stringify_members ((k, v) # fs) =
      (QuoteJSONString k @ 0x3A # the (stringify_value v)) # stringify_members fs"
    using stringify_total(1) [OF rv] by auto
  have empty: "(stringify_members fs = []) = (fs = [])"
    using stringify_total(3) [OF rfs] by simp
  have key: "\<And>tail. parse_string_body (tk @ 0x22 # tail) = Some (k, tail)"
    unfolding tk_def by (rule parse_escaped_units)
  show ?case
  proof (cases "fs = []")
    case True
    then have shape: "concat (map script_escape (join_with 0x2C (stringify_members ((k, v) # fs)))) =
        0x22 # tk @ 0x22 # 0x3A # tv"
      by (subst membs) (simp add: tk_def tv_def escaped_quoted escaped_brackets)
    from 12(5) have "length tv < n'" unfolding shape n by simp
    then have "parse_value n' (tv @ 0x7D # rest) = Some (v, 0x7D # rest)"
      unfolding tv_def using rv by (intro 12(1)) simp_all
    then show ?thesis
      unfolding shape n using True
      by (simp add: skip_ws_token separators_not_ws key del: parse_string_body.simps)
  next
    case False
    then have shape: "concat (map script_escape (join_with 0x2C (stringify_members ((k, v) # fs)))) =
        0x22 # tk @ 0x22 # 0x3A # tv @ 0x2C # tfs"
      by (subst membs)
        (simp add: join_with_cons empty tk_def tv_def tfs_def escaped_quoted escaped_brackets)
    from 12(5) have f1: "length tv < n'" and f2: "Suc (length tfs) < n'"
      unfolding shape n by simp_all
    have "parse_value n' (tv @ 0x2C # tfs @ 0x7D # rest) = Some (v, 0x2C # tfs @ 0x7D # rest)"
      unfolding tv_def using rv f1 [unfolded tv_def] by (intro 12(1)) simp_all
    moreover have "parse_members n' (tfs @ 0x7D # rest) = Some (fs, rest)"
      unfolding tfs_def using rfs False f2 [unfolded tfs_def] by (rule 12(2))
    ultimately show ?thesis
      unfolding shape n
      by (simp add: skip_ws_token separators_not_ws key del: parse_string_body.simps)
  qed
qed

text \<open>
  C3. For every JSON-representable value (numbers are integers here): \<open>JSON.stringify\<close>
  gives a text, and \<open>serializeJavaScript\<close> returns that text with every occurrence of
  the code units 3C, 3E, 2F, 2028 and 2029 (less-than, greater-than, slash, line separator,
  paragraph separator) replaced by \<open>\u003c\<close>, \<open>\u003e\<close>, \<open>\u002f\<close>,
  \<open>\u2028\<close>, \<open>\u2029\<close>; none of the five is left in the result; and
  \<open>JSON.parse\<close> of the result is the value itself.
\<close>

theorem hydration_round_trip:
  assumes "json_rep v"
  shows "\<exists>json out.
           JSON_stringify v = Some json \<and> serializeJavaScript v = Inr out \<and>
           out = concat (map (\<lambda>c. if c = 0x3C then 0x5C # ascii ''u003c''
                                   else if c = 0x3E then 0x5C # ascii ''u003e''
                                   else if c = 0x2F then 0x5C # ascii ''u002f''
                                   else if c = 0x2028 then 0x5C # ascii ''u2028''
                                   else if c = 0x2029 then 0x5C # ascii ''u2029''
                                   else [c]) json) \<and>
           (\<forall>c\<in>set out. c \<noteq> 0x3C \<and> c \<noteq> 0x3E \<and> c \<noteq> 0x2F \<and> c \<noteq> 0x2028 \<and> c \<noteq> 0x2029) \<and>
           JSON_parse out = Some v"
proof -
  from stringify_total(1) [OF assms] obtain json where json: "stringify_value v = Some json" ..
  define out where "out = concat (map script_escape json)"
  have table: "script_escape = (\<lambda>c. if c = 0x3C then 0x5C # ascii ''u003c''
                                   else if c = 0x3E then 0x5C # ascii ''u003e''
                                   else if c = 0x2F then 0x5C # ascii ''u002f''
                                   else if c = 0x2028 then 0x5C # ascii ''u2028''
                                   else if c = 0x2029 then 0x5C # ascii ''u2029''
                                   else [c])"
    by (rule ext) (simp add: script_escape_def)
  have a: "JSON_stringify v = Some json"
    using json by (simp add: JSON_stringify_def)
  have b: "serializeJavaScript v = Inr out"
    using a by (simp add: serializeJavaScript_def out_def)
  have c: "\<forall>c\<in>set out. c \<noteq> 0x3C \<and> c \<noteq> 0x3E \<and> c \<noteq> 0x2F \<and> c \<noteq> 0x2028 \<and> c \<noteq> 0x2029"
    unfolding out_def using clean_script_escape by auto
  have "parse_value (2 * length out + 2) (out @ []) = Some (v, [])"
    using round_trip(1) [OF assms, of "[]" "2 * length out + 2"] json
    by (simp add: out_def del: parse_value.simps)
  then have d: "JSON_parse out = Some v"
    by (simp add: JSON_parse_def skip_ws_def del: parse_value.simps)
  from a b c d show ?thesis
    unfolding out_def table by blast
qed

theorem hydration_round_trip_witness:
  "json_rep sample_payload \<and> serializeJavaScript sample_payload = Inr sample_payload_text \<and>
   JSON_parse sample_payload_text = Some sample_payload"
proof -
  have rep: "json_rep sample_payload"
    by (simp add: sample_payload_def property_order_def is_array_index_def is_digit_def ascii_def)
  have ser: "serializeJavaScript sample_payload = Inr sample_payload_text"
    by code_simp
  from hydration_round_trip [OF rep] ser have "JSON_parse sample_payload_text = Some sample_payload"
    by auto
  with rep ser show ?thesis by simp
qed

end
